theory Spec2Isabelle
  imports Complex_Main "HOL-Library.Word"
begin

unbundle bit_operations_syntax

section \<open>Leela Zero network front end (Network.cpp)\<close>

text \<open>
  A shallow embedding of the parts of \<^verbatim>\<open>src/Network.cpp\<close> that decide how a weight
  file is accepted, how the symmetry table is built, how the input planes are laid out,
  how the result cache is probed and filled, how ensemble results are combined and how
  the self-check counts its failures.

  Conventions.
  \<^item> C++ \<^verbatim>\<open>int\<close> coordinates are \<open>int\<close>; loop counters and container indices, which the
    source keeps non-negative, are \<open>nat\<close>.
  \<^item> A C++ \<^verbatim>\<open>float\<close> is a \<open>float\<close> below: either \<open>NaN\<close> or a real number. Rounding
    and the infinities are not modelled. For that reason every result about float values
    is stated in the operations of the source, in the order of the source: no sum is
    reassociated and no division is moved across a sum.
  \<^item> An \<^verbatim>\<open>assert\<close> that fails, a thrown exception and \<^verbatim>\<open>exit\<close> are values of type
    \<open>error\<close>; a function that can raise returns \<open>error + 'a\<close>.
  \<^item> Compile-time constants of headers that are not part of the source at hand
    (\<^verbatim>\<open>config.h\<close>, \<^verbatim>\<open>Network.h\<close>) are fields of the record \<open>config\<close>.
\<close>

subsection \<open>Errors and compile-time constants\<close>

datatype error =
    AssertionFailed
  | SelfcheckMismatch   \<comment> \<open>\<^verbatim>\<open>std::runtime_error("OpenCL self-check mismatch.")\<close>\<close>
  | ExitFailure         \<comment> \<open>\<^verbatim>\<open>exit(EXIT_FAILURE)\<close>\<close>
  | NullDereference     \<comment> \<open>a call through a null backend pointer\<close>

record config =
  BOARD_SIZE :: nat
  INPUT_MOVES :: nat
  LIBERTY_PLANES :: nat
  INPUT_CHANNELS :: nat
  TRAINED_UNIT_KOMI :: real
  SELFCHECK_PROBABILITY :: nat
  USE_OPENCL_SELFCHECK :: bool   \<comment> \<open>whether the self-check code is compiled in\<close>
  cfg_noise :: bool
  cfg_random_cnt :: int

definition NUM_INTERSECTIONS :: "config \<Rightarrow> nat" where
  "NUM_INTERSECTIONS cfg = BOARD_SIZE cfg * BOARD_SIZE cfg"

definition NUM_SYMMETRIES :: nat where
  "NUM_SYMMETRIES = 8"

definition IDENTITY_SYMMETRY :: nat where
  "IDENTITY_SYMMETRY = 0"

text \<open>Running a fallible loop body over a list of indices, stopping at the first error.\<close>

fun mapE :: "('a \<Rightarrow> error + 'b) \<Rightarrow> 'a list \<Rightarrow> error + 'b list" where
  "mapE f [] = Inr []"
| "mapE f (x # xs) =
     (case f x of
        Inl e \<Rightarrow> Inl e
      | Inr y \<Rightarrow> (case mapE f xs of Inl e \<Rightarrow> Inl e | Inr ys \<Rightarrow> Inr (y # ys)))"

subsection \<open>Symmetries of the board\<close>

text \<open>
  \<^verbatim>\<open>Network::get_symmetry\<close>: the three steps are taken in the order of the source, each
  under its own bit test; the five assertions are the source's.
\<close>

definition get_symmetry :: "int \<times> int \<Rightarrow> int \<Rightarrow> int \<Rightarrow> error + int \<times> int" where
  "get_symmetry vertex symmetry board_size =
     (let x = fst vertex; y = snd vertex in
      if \<not> (0 \<le> x \<and> x < board_size) then Inl AssertionFailed
      else if \<not> (0 \<le> y \<and> y < board_size) then Inl AssertionFailed
      else if \<not> (0 \<le> symmetry \<and> symmetry < int NUM_SYMMETRIES) then Inl AssertionFailed
      else
        let (x1, y1) = (if symmetry AND 4 \<noteq> 0 then (y, x) else (x, y));
            x2 = (if symmetry AND 2 \<noteq> 0 then board_size - x1 - 1 else x1);
            y2 = (if symmetry AND 1 \<noteq> 0 then board_size - y1 - 1 else y1)
        in
          if \<not> (0 \<le> x2 \<and> x2 < board_size) then Inl AssertionFailed
          else if \<not> (0 \<le> y2 \<and> y2 < board_size) then Inl AssertionFailed
          else if \<not> (symmetry \<noteq> int IDENTITY_SYMMETRY \<or> vertex = (x2, y2))
            then Inl AssertionFailed
          else Inr (x2, y2))"

text \<open>
  The body of the double loop of \<^verbatim>\<open>Network::initialize\<close> that fills the global
  \<^verbatim>\<open>symmetry_nn_idx_table\<close>, with its range assertion, and the loop itself.
\<close>

definition symmetry_entry :: "config \<Rightarrow> nat \<Rightarrow> nat \<Rightarrow> error + nat" where
  "symmetry_entry cfg s v =
     (case get_symmetry (int (v mod BOARD_SIZE cfg), int (v div BOARD_SIZE cfg))
             (int s) (int (BOARD_SIZE cfg)) of
        Inl e \<Rightarrow> Inl e
      | Inr newvtx \<Rightarrow>
          (let e = snd newvtx * int (BOARD_SIZE cfg) + fst newvtx in
           if 0 \<le> e \<and> e < int (NUM_INTERSECTIONS cfg) then Inr (nat e)
           else Inl AssertionFailed))"

definition build_symmetry_table :: "config \<Rightarrow> error + nat list list" where
  "build_symmetry_table cfg =
     mapE (\<lambda>s. mapE (\<lambda>v. symmetry_entry cfg s v) [0..<NUM_INTERSECTIONS cfg])
          [0..<NUM_SYMMETRIES]"

text \<open>
  The three coordinate maps as the specification names them, and their composition in the
  order transpose, mirror of x, mirror of y, each applied when its bit of the index is set.
\<close>

definition transpose_xy :: "int \<times> int \<Rightarrow> int \<times> int" where
  "transpose_xy p = (snd p, fst p)"

definition mirror_x :: "int \<Rightarrow> int \<times> int \<Rightarrow> int \<times> int" where
  "mirror_x n p = (n - fst p - 1, snd p)"

definition mirror_y :: "int \<Rightarrow> int \<times> int \<Rightarrow> int \<times> int" where
  "mirror_y n p = (fst p, n - snd p - 1)"

definition spec_symmetry :: "int \<Rightarrow> nat \<Rightarrow> int \<times> int \<Rightarrow> int \<times> int" where
  "spec_symmetry n s =
     (if bit s 0 then mirror_y n else id) \<circ>
     (if bit s 1 then mirror_x n else id) \<circ>
     (if bit s 2 then transpose_xy else id)"

text \<open>A vertex index \<open>v\<close> as the loop splits it (\<^verbatim>\<open>v % BOARD_SIZE\<close>, \<^verbatim>\<open>v / BOARD_SIZE\<close>) and
  as it is put together again (\<^verbatim>\<open>second * BOARD_SIZE + first\<close>).\<close>

definition vertex_xy :: "config \<Rightarrow> nat \<Rightarrow> int \<times> int" where
  "vertex_xy cfg v = (int (v mod BOARD_SIZE cfg), int (v div BOARD_SIZE cfg))"

definition xy_vertex :: "config \<Rightarrow> int \<times> int \<Rightarrow> nat" where
  "xy_vertex cfg p = nat (snd p * int (BOARD_SIZE cfg) + fst p)"

definition symmetry_nn_idx :: "config \<Rightarrow> nat \<Rightarrow> nat \<Rightarrow> nat" where
  "symmetry_nn_idx cfg s v = xy_vertex cfg (spec_symmetry (int (BOARD_SIZE cfg)) s (vertex_xy cfg v))"

text \<open>The table with these entries; it is shown below to be the one that the loop builds.\<close>

definition symmetry_nn_idx_table :: "config \<Rightarrow> nat list list" where
  "symmetry_nn_idx_table cfg =
     map (\<lambda>s. map (symmetry_nn_idx cfg s) [0..<NUM_INTERSECTIONS cfg]) [0..<NUM_SYMMETRIES]"

subsection \<open>Floats, results, boards and game states\<close>

datatype float = NaN | Fin real

fun isnan :: "float \<Rightarrow> bool" where
  "isnan NaN = True"
| "isnan (Fin x) = False"

fun fadd :: "float \<Rightarrow> float \<Rightarrow> float" where
  "fadd (Fin x) (Fin y) = Fin (x + y)"
| "fadd _ _ = NaN"

fun fsub :: "float \<Rightarrow> float \<Rightarrow> float" where
  "fsub (Fin x) (Fin y) = Fin (x - y)"
| "fsub _ _ = NaN"

text \<open>Without infinities a division by zero has no value to return but \<open>NaN\<close>.\<close>

fun fdiv :: "float \<Rightarrow> float \<Rightarrow> float" where
  "fdiv (Fin x) (Fin y) = (if y = 0 then NaN else Fin (x / y))"
| "fdiv _ _ = NaN"

fun fabs :: "float \<Rightarrow> float" where
  "fabs (Fin x) = Fin \<bar>x\<bar>"
| "fabs NaN = NaN"

fun fsqrt :: "float \<Rightarrow> float" where
  "fsqrt (Fin x) = (if x < 0 then NaN else Fin (sqrt x))"
| "fsqrt NaN = NaN"

text \<open>Every ordered comparison with a \<open>NaN\<close> is false.\<close>

fun flt :: "float \<Rightarrow> float \<Rightarrow> bool" where
  "flt (Fin x) (Fin y) = (x < y)"
| "flt _ _ = False"

definition fgt :: "float \<Rightarrow> float \<Rightarrow> bool" where
  "fgt a b = flt b a"

text \<open>\<^verbatim>\<open>std::max(a, b)\<close> is \<^verbatim>\<open>(a < b) ? b : a\<close> and \<^verbatim>\<open>std::min(a, b)\<close> is \<^verbatim>\<open>(b < a) ? b : a\<close>.\<close>

definition std_max :: "float \<Rightarrow> float \<Rightarrow> float" where
  "std_max a b = (if flt a b then b else a)"

definition std_min :: "float \<Rightarrow> float \<Rightarrow> float" where
  "std_min a b = (if flt b a then b else a)"

text \<open>\<^verbatim>\<open>std::numeric_limits<float>::max()\<close>, the largest finite single-precision value.\<close>

definition FLT_MAX :: real where
  "FLT_MAX = (2 ^ 24 - 1) * 2 ^ 104"

text \<open>
  What the loop of the \<^verbatim>\<open>AVERAGE\<close> branch leaves in one field of its result, given the
  values of that field in the single evaluations: from zero, each value is divided by
  \<^verbatim>\<open>static_cast<float>(NUM_SYMMETRIES)\<close> and added, one after the other in the order of
  the loop (\<^verbatim>\<open>result.winrate += tmpresult.winrate / ...\<close>). The additions are kept in that
  order and nothing is taken out of the sum.
\<close>

definition accumulate :: "float list \<Rightarrow> float" where
  "accumulate xs = fold (\<lambda>x acc. fadd acc (fdiv x (Fin (real NUM_SYMMETRIES)))) xs (Fin 0)"

record Netresult =
  policy :: "float list"
  policy_pass :: float
  winrate :: float

text \<open>
  Modelled from the spec: the constructor of \<^verbatim>\<open>Netresult\<close> (declared in \<^verbatim>\<open>Network.h\<close>, which
  is not part of the source at hand). The result is a fixed-size policy vector over the
  board intersections, one pass probability and one win-rate; a fresh one holds zeros,
  which the accumulation of the \<^verbatim>\<open>AVERAGE\<close> branch of \<^verbatim>\<open>get_output\<close> starts from.
\<close>

definition Netresult_init :: "config \<Rightarrow> Netresult" where
  "Netresult_init cfg =
     \<lparr>policy = replicate (NUM_INTERSECTIONS cfg) (Fin 0), policy_pass = Fin 0, winrate = Fin 0\<rparr>"

text \<open>
  The rules engine (\<^verbatim>\<open>FastBoard\<close>, \<^verbatim>\<open>FullBoard\<close>, \<^verbatim>\<open>GameState\<close>, \<^verbatim>\<open>Ladder\<close>) is a collaborator:
  a board and a game state are records of what the network code reads from them.
  \<^verbatim>\<open>state->get_to_move()\<close> and \<^verbatim>\<open>state->board.get_to_move()\<close> read the same field.
\<close>

datatype square = BLACK | WHITE | EMPTY | INVAL

type_synonym hash = "64 word"

record FullBoard =
  get_boardsize :: int
  get_to_move :: square
  get_hash :: hash
  get_vertex :: "int \<Rightarrow> int \<Rightarrow> int"
  get_square :: "int \<Rightarrow> square"              \<comment> \<open>by vertex\<close>
  get_liberties :: "int \<Rightarrow> int \<Rightarrow> int"       \<comment> \<open>by coordinates\<close>

definition get_square_xy :: "FullBoard \<Rightarrow> int \<Rightarrow> int \<Rightarrow> square" where
  "get_square_xy b x y = get_square b (get_vertex b x y)"

record GameState =
  board :: FullBoard
  get_movenum :: nat
  get_komi :: float
  get_past_board :: "nat \<Rightarrow> FullBoard"
  get_symmetry_hash :: "nat \<Rightarrow> hash"
  is_move_legal :: "square \<Rightarrow> int \<Rightarrow> bool"
  opening_moves :: "nat \<Rightarrow> nat"          \<comment> \<open>\<^verbatim>\<open>get_timecontrol().opening_moves(boardsize)\<close>\<close>
  ladder_capture :: "int \<Rightarrow> bool"
  ladder_escape :: "int \<Rightarrow> bool"

subsection \<open>The result cache\<close>

text \<open>
  Modelled from the spec: the result cache \<^verbatim>\<open>NNCache\<close> (its header and implementation are
  not part of the source at hand) is a memo of network results keyed by position hash:
  \<open>lookup\<close> reads the entry of a key, \<open>insert\<close> stores a result under a key. Its sizing and
  eviction, which the specification leaves to the cache, are not modelled.
\<close>

type_synonym NNCache = "hash \<rightharpoonup> Netresult"

definition NNCache_lookup :: "NNCache \<Rightarrow> hash \<Rightarrow> Netresult option" where
  "NNCache_lookup c h = c h"

definition NNCache_insert :: "hash \<Rightarrow> Netresult \<Rightarrow> NNCache \<Rightarrow> NNCache" where
  "NNCache_insert h r c = c(h \<mapsto> r)"

subsection \<open>The network object\<close>

text \<open>
  The members of \<^verbatim>\<open>Network\<close> that the functions below read or write. The weight tensors
  are vectors of floats (a vector of them where the source appends one per layer).

  Between the input planes and the outputs of the two heads the source runs the forward
  pass of a backend and then batch normalisation, inner products, a softmax and a tanh:
  float arithmetic that nothing below looks into. \<open>m_forward\<close> stands for
  \<^verbatim>\<open>m_forward->forward\<close> followed by that post-processing and returns the softmax outputs
  (one per intersection, then the pass move) and the win-rate; \<open>m_forward_cpu\<close> is the
  reference backend, \<open>None\<close> where the source holds a null pointer.

  \<^verbatim>\<open>Random::get_Rng()\<close> is a source of numbers outside this file: the draws it will give
  are \<open>rng_draws\<close>, and \<open>rng_pos\<close> counts the draws taken.
\<close>

record Network =
  m_value_head_not_stm :: bool
  m_nncache :: NNCache
  m_selfcheck_fails :: "bool list"
  m_forward :: "float list \<Rightarrow> float list \<times> float"
  m_forward_cpu :: "(float list \<Rightarrow> float list \<times> float) option"
  rng_draws :: "nat \<Rightarrow> nat"
  rng_pos :: nat
  m_conv_weights :: "float list list"
  m_batchnorm_gammas :: "float list list"
  m_batchnorm_betas :: "float list list"
  m_batchnorm_means :: "float list list"
  m_batchnorm_stddivs :: "float list list"
  m_prelu_alphas :: "float list list"
  m_se_fc1_w :: "float list list"
  m_se_fc1_b :: "float list list"
  m_se_fc2_w :: "float list list"
  m_se_fc2_b :: "float list list"
  m_conv_pol_w :: "float list"
  m_conv_pol_b :: "float list"
  m_bn_pol_w1 :: "float list"
  m_bn_pol_w2 :: "float list"
  m_prelu_pol_alpha :: "float list"
  m_ip_pol_w :: "float list"
  m_ip_pol_b :: "float list"
  m_conv_val_w :: "float list"
  m_conv_val_b :: "float list"
  m_bn_val_w1 :: "float list"
  m_bn_val_w2 :: "float list"
  m_prelu_val_alpha :: "float list"
  m_ip1_val_w :: "float list"
  m_ip1_val_b :: "float list"
  m_ip2_val_w :: "float list"
  m_ip2_val_b :: "float list"

definition randfix :: "nat \<Rightarrow> Network \<Rightarrow> nat \<times> Network" where
  "randfix n net = (rng_draws net (rng_pos net) mod n, net\<lparr>rng_pos := rng_pos net + 1\<rparr>)"

subsection \<open>Probing the cache\<close>

text \<open>
  The loop of \<^verbatim>\<open>Network::probe_cache\<close> over the symmetries, in the order of the source:
  the identity is skipped, the first symmetry whose hash is in the cache ends the loop,
  and the policy of the stored result is read through that symmetry's row of the table.
\<close>

fun probe_symmetries ::
  "config \<Rightarrow> nat list list \<Rightarrow> NNCache \<Rightarrow> GameState \<Rightarrow> nat list \<Rightarrow> Netresult option" where
  "probe_symmetries cfg tbl c state [] = None"
| "probe_symmetries cfg tbl c state (sy # syms) =
     (if sy = IDENTITY_SYMMETRY then probe_symmetries cfg tbl c state syms
      else
        (case NNCache_lookup c (get_symmetry_hash state sy) of
           Some result \<Rightarrow>
             Some (result\<lparr>policy :=
                     map (\<lambda>idx. policy result ! (tbl ! sy ! idx)) [0..<NUM_INTERSECTIONS cfg]\<rparr>)
         | None \<Rightarrow> probe_symmetries cfg tbl c state syms))"

definition probe_cache ::
  "config \<Rightarrow> nat list list \<Rightarrow> Network \<Rightarrow> GameState \<Rightarrow> Netresult option" where
  "probe_cache cfg tbl net state =
     (case NNCache_lookup (m_nncache net) (get_hash (board state)) of
        Some result \<Rightarrow> Some result
      | None \<Rightarrow>
          if \<not> cfg_noise cfg \<and> cfg_random_cnt cfg = 0
             \<and> get_movenum state < opening_moves state (BOARD_SIZE cfg) div 2
          then probe_symmetries cfg tbl (m_nncache net) state [0..<NUM_SYMMETRIES]
          else None)"

subsection \<open>Input planes\<close>

text \<open>
  The input tensor is one list; an iterator into it is the offset of its first element.
  A write is a list update. Where an index computed from signed values could be negative
  the update is guarded; a write past the end, which the source must not make either,
  leaves the list as it is.
\<close>

definition put :: "float list \<Rightarrow> int \<Rightarrow> float \<Rightarrow> float list" where
  "put xs i v = (if 0 \<le> i then xs[nat i := v] else xs)"

definition std_fill :: "nat \<Rightarrow> nat \<Rightarrow> float \<Rightarrow> float list \<Rightarrow> float list" where
  "std_fill first_it last_it v xs = fold (\<lambda>i ys. ys[i := v]) [first_it..<last_it] xs"

definition fill_input_plane_pair ::
  "config \<Rightarrow> nat list list \<Rightarrow> FullBoard \<Rightarrow> nat \<Rightarrow> nat \<Rightarrow> nat \<Rightarrow> float list \<Rightarrow> float list" where
  "fill_input_plane_pair cfg tbl b black white symmetry input_data =
     fold (\<lambda>idx inp.
             let sym_idx = tbl ! symmetry ! idx;
                 x = int (sym_idx mod BOARD_SIZE cfg);
                 y = int (sym_idx div BOARD_SIZE cfg);
                 color = get_square_xy b x y
             in if color = BLACK then inp[black + idx := Fin 1]
                else if color = WHITE then inp[white + idx := Fin 1]
                else inp)
          [0..<NUM_INTERSECTIONS cfg] input_data"

definition legal_plane ::
  "config \<Rightarrow> nat list list \<Rightarrow> GameState \<Rightarrow> nat \<Rightarrow> nat \<Rightarrow> float list \<Rightarrow> float list" where
  "legal_plane cfg tbl state legal symmetry input_data =
     (let to_move = get_to_move (board state) in
      fold (\<lambda>idx inp.
              let sym_idx = tbl ! symmetry ! idx;
                  x = int (sym_idx mod BOARD_SIZE cfg);
                  y = int (sym_idx div BOARD_SIZE cfg);
                  vtx = get_vertex (board state) x y;
                  color = get_square_xy (board state) x y
              in if color = EMPTY then
                   (if \<not> is_move_legal state to_move vtx then inp[legal + idx := Fin 1]
                    else inp)
                 else inp)
           [0..<NUM_INTERSECTIONS cfg] input_data)"

definition fill_liberty_planes ::
  "config \<Rightarrow> nat list list \<Rightarrow> FullBoard \<Rightarrow> nat \<Rightarrow> nat \<Rightarrow> int \<Rightarrow> nat \<Rightarrow> float list
     \<Rightarrow> float list" where
  "fill_liberty_planes cfg tbl b planes_black planes_white plane_count symmetry input_data =
     fold (\<lambda>idx inp.
             let sym_idx = tbl ! symmetry ! idx;
                 x = int (sym_idx mod BOARD_SIZE cfg);
                 y = int (sym_idx div BOARD_SIZE cfg);
                 vtx = get_vertex b x y;
                 color = get_square b vtx
             in if color \<noteq> EMPTY then
                  (let libs0 = get_liberties b x y;
                       libs = (if libs0 > plane_count then plane_count else libs0)
                   in if color = BLACK
                      then put inp (int planes_black
                                    + (libs - 1) * int (NUM_INTERSECTIONS cfg) + int idx) (Fin 1)
                      else put inp (int planes_white
                                    + (libs - 1) * int (NUM_INTERSECTIONS cfg) + int idx) (Fin 1))
                else inp)
          [0..<NUM_INTERSECTIONS cfg] input_data"

definition fill_ladder_planes ::
  "config \<Rightarrow> nat list list \<Rightarrow> GameState \<Rightarrow> nat \<Rightarrow> nat \<Rightarrow> nat \<Rightarrow> float list \<Rightarrow> float list" where
  "fill_ladder_planes cfg tbl state captures escapes symmetry input_data =
     fold (\<lambda>idx inp.
             let sym_idx = tbl ! symmetry ! idx;
                 x = int (sym_idx mod BOARD_SIZE cfg);
                 y = int (sym_idx div BOARD_SIZE cfg);
                 vtx = get_vertex (board state) x y;
                 inp1 = (if ladder_capture state vtx then inp[captures + idx := Fin 1] else inp)
             in if ladder_escape state vtx then inp1[escapes + idx := Fin 1] else inp1)
          [0..<NUM_INTERSECTIONS cfg] input_data"

definition get_normalised_komi :: "config \<Rightarrow> GameState \<Rightarrow> float" where
  "get_normalised_komi cfg state =
     fadd (Fin (1 / 2)) (fdiv (get_komi state) (Fin (2 * TRAINED_UNIT_KOMI cfg)))"

text \<open>
  \<^verbatim>\<open>Network::gather_features\<close>. The offsets carry the names of the source's iterators and
  are computed as there; \<open>to_move_it\<close>, which the source computes and never uses, is left
  out. The writes come in the order of the source: history planes, the two fills, the
  legality plane, the liberty planes, the ladder planes.
\<close>

definition gather_features ::
  "config \<Rightarrow> nat list list \<Rightarrow> GameState \<Rightarrow> nat \<Rightarrow> error + float list" where
  "gather_features cfg tbl state symmetry =
     (if \<not> symmetry < NUM_SYMMETRIES then Inl AssertionFailed
      else
        let N = NUM_INTERSECTIONS cfg;
            input_data0 = replicate (INPUT_CHANNELS cfg * N) (Fin 0);
            blacks_move = (get_to_move (board state) = BLACK);
            black_it = (if blacks_move then 0 else INPUT_MOVES cfg * N);
            white_it = (if blacks_move then INPUT_MOVES cfg * N else 0);
            legal_it = (2 * INPUT_MOVES cfg) * N;
            liberties_our = (2 * INPUT_MOVES cfg + 1) * N;
            liberties_other = (2 * INPUT_MOVES cfg + 1 + LIBERTY_PLANES cfg) * N;
            liberties_black_it = (if blacks_move then liberties_our else liberties_other);
            liberties_white_it = (if blacks_move then liberties_other else liberties_our);
            captures_it = (2 * INPUT_MOVES cfg + 1 + 2 * LIBERTY_PLANES cfg) * N;
            escapes_it = (2 * INPUT_MOVES cfg + 1 + 2 * LIBERTY_PLANES cfg + 1) * N;
            moves = min (get_movenum state + 1) (INPUT_MOVES cfg);
            input_data1 =
              fold (\<lambda>h inp. fill_input_plane_pair cfg tbl (get_past_board state h)
                               (black_it + h * N) (white_it + h * N) symmetry inp)
                   [0..<moves] input_data0;
            black_to_move_it = 2 * INPUT_MOVES cfg * N;
            white_to_move_it = black_to_move_it + N;
            pos_komi = get_normalised_komi cfg state;
            neg_komi = fsub (Fin 1) pos_komi;
            black_komi = (if blacks_move then pos_komi else neg_komi);
            white_komi = (if blacks_move then neg_komi else pos_komi);
            input_data2 = std_fill black_to_move_it (black_to_move_it + N) black_komi input_data1;
            input_data3 = std_fill white_to_move_it (white_to_move_it + N) white_komi input_data2;
            input_data4 = legal_plane cfg tbl state legal_it symmetry input_data3;
            input_data5 = fill_liberty_planes cfg tbl (board state)
                            liberties_black_it liberties_white_it
                            (int (LIBERTY_PLANES cfg)) symmetry input_data4;
            input_data6 = fill_ladder_planes cfg tbl state captures_it escapes_it symmetry
                            input_data5
        in Inr input_data6)"

subsection \<open>One evaluation\<close>

text \<open>
  \<^verbatim>\<open>Network::get_output_internal\<close>: the outputs of the evaluated orientation are written
  back through the row of the symmetry, \<^verbatim>\<open>result.policy[sym_idx] = outputs[idx]\<close>.
\<close>

definition get_output_internal ::
  "config \<Rightarrow> nat list list \<Rightarrow> Network \<Rightarrow> GameState \<Rightarrow> nat \<Rightarrow> bool \<Rightarrow> error + Netresult" where
  "get_output_internal cfg tbl net state symmetry selfcheck =
     (if \<not> symmetry < NUM_SYMMETRIES then Inl AssertionFailed
      else
        (case gather_features cfg tbl state symmetry of
           Inl e \<Rightarrow> Inl e
         | Inr input_data \<Rightarrow>
             (case (if USE_OPENCL_SELFCHECK cfg \<and> selfcheck then m_forward_cpu net
                    else Some (m_forward net)) of
                None \<Rightarrow> Inl NullDereference
              | Some forward \<Rightarrow>
                  (let outputs = fst (forward input_data);
                       winrate_out = snd (forward input_data);
                       result = Netresult_init cfg;
                       pol = fold (\<lambda>idx p. p[tbl ! symmetry ! idx := outputs ! idx])
                                  [0..<NUM_INTERSECTIONS cfg] (policy result)
                   in Inr (result\<lparr>policy := pol,
                                   policy_pass := outputs ! NUM_INTERSECTIONS cfg,
                                   winrate := winrate_out\<rparr>)))))"

subsection \<open>The self-check\<close>

definition relative_difference :: "float \<Rightarrow> float \<Rightarrow> float" where
  "relative_difference a b =
     (if isnan a \<or> isnan b then Fin FLT_MAX
      else
        let small_number = Fin (1 / 361);
            fa = fabs a;
            fb = fabs b
        in if fgt fa small_number \<and> fgt fb small_number then
             (if flt a (Fin 0) \<noteq> flt b (Fin 0) then Fin FLT_MAX
              else fdiv (fabs (fsub fa fb)) (std_min fa fb))
           else
             (let fa1 = std_max fa small_number;
                  fb1 = std_max fb small_number
              in fdiv (fabs (fsub fa1 fb1)) (std_min fa1 fb1)))"

definition relative_error :: float where
  "relative_error = Fin (2 / 10)"

definition max_failures :: nat where
  "max_failures = 3"

definition last_failure_window :: nat where
  "last_failure_window = 10"

text \<open>The loop over the policy entries, which leaves at the first entry beyond the threshold.\<close>

fun policy_mismatch :: "float list \<Rightarrow> float list \<Rightarrow> nat list \<Rightarrow> bool" where
  "policy_mismatch d r [] = False"
| "policy_mismatch d r (idx # idxs) =
     (if fgt (relative_difference (d ! idx) (r ! idx)) relative_error then True
      else policy_mismatch d r idxs)"

definition selfcheck_fail :: "Netresult \<Rightarrow> Netresult \<Rightarrow> bool" where
  "selfcheck_fail data ref =
     (let fail0 = policy_mismatch (policy data) (policy ref) [0..<length (policy data)];
          err_pass = relative_difference (policy_pass data) (policy_pass ref);
          err_winrate = relative_difference (winrate data) (winrate ref);
          fail1 = (if fgt err_pass relative_error then True else fail0);
          fail2 = (if fgt err_winrate relative_error then True else fail1)
      in fail2)"

text \<open>\<^verbatim>\<open>while (m_selfcheck_fails.size() >= last_failure_window) pop_front();\<close>\<close>

function pop_front_loop :: "bool list \<Rightarrow> bool list" where
  "pop_front_loop fails =
     (if length fails \<ge> last_failure_window then pop_front_loop (tl fails) else fails)"
  by pat_completeness auto
termination
  by (relation "measure length") (auto simp: last_failure_window_def)

declare pop_front_loop.simps [simp del]

text \<open>
  The second half of \<^verbatim>\<open>Network::compare_net_outputs\<close>, from the lock on: the outcome is
  appended, a failing outcome is counted against the list as it then stands, and the list
  is cut back. \<open>record_selfcheck\<close> takes the outcome, \<open>compare_net_outputs\<close> computes it.
\<close>

definition record_selfcheck :: "bool \<Rightarrow> bool list \<Rightarrow> error + bool list" where
  "record_selfcheck failed fails0 =
     (let fails = fails0 @ [failed] in
      if failed \<and> count_list fails True \<ge> max_failures then Inl SelfcheckMismatch
      else Inr (pop_front_loop fails))"

definition compare_net_outputs :: "Netresult \<Rightarrow> Netresult \<Rightarrow> bool list \<Rightarrow> error + bool list" where
  "compare_net_outputs data ref fails0 = record_selfcheck (selfcheck_fail data ref) fails0"

text \<open>A run of self-checks from a given failure list, ending at the first exception.\<close>

fun selfcheck_run :: "bool list \<Rightarrow> (Netresult \<times> Netresult) list \<Rightarrow> error + bool list" where
  "selfcheck_run fails [] = Inr fails"
| "selfcheck_run fails (c # cs) =
     (case compare_net_outputs (fst c) (snd c) fails of
        Inl e \<Rightarrow> Inl e
      | Inr fails1 \<Rightarrow> selfcheck_run fails1 cs)"

subsection \<open>The evaluation entry point\<close>

datatype Ensemble = DIRECT | RANDOM_SYMMETRY | AVERAGE

text \<open>The loop of the \<^verbatim>\<open>AVERAGE\<close> branch over the symmetries, accumulating into \<open>result\<close>.\<close>

fun average_loop ::
  "config \<Rightarrow> nat list list \<Rightarrow> Network \<Rightarrow> GameState \<Rightarrow> nat list \<Rightarrow> Netresult
     \<Rightarrow> error + Netresult" where
  "average_loop cfg tbl net state [] result = Inr result"
| "average_loop cfg tbl net state (sy # syms) result =
     (case get_output_internal cfg tbl net state sy False of
        Inl e \<Rightarrow> Inl e
      | Inr tmpresult \<Rightarrow>
          average_loop cfg tbl net state syms
            (result\<lparr>winrate :=
                      fadd (winrate result)
                           (fdiv (winrate tmpresult) (Fin (real NUM_SYMMETRIES))),
                    policy_pass :=
                      fadd (policy_pass result)
                           (fdiv (policy_pass tmpresult) (Fin (real NUM_SYMMETRIES))),
                    policy :=
                      fold (\<lambda>idx p. p[idx := fadd (p ! idx)
                                            (fdiv (policy tmpresult ! idx)
                                                  (Fin (real NUM_SYMMETRIES)))])
                           [0..<NUM_INTERSECTIONS cfg] (policy result)\<rparr>))"

text \<open>
  The middle of \<^verbatim>\<open>Network::get_output\<close>: the three ensemble branches, which produce the
  result before the adjustment for the value head and before the insertion into the
  cache. In the last branch the draw for the self-check is taken only when a reference
  backend is present.
\<close>

definition get_output_ensemble ::
  "config \<Rightarrow> nat list list \<Rightarrow> Network \<Rightarrow> GameState \<Rightarrow> Ensemble \<Rightarrow> int
     \<Rightarrow> error + Netresult \<times> Network" where
  "get_output_ensemble cfg tbl net state ensemble symmetry =
     (if ensemble = DIRECT then
        (if \<not> (0 \<le> symmetry \<and> symmetry < int NUM_SYMMETRIES) then Inl AssertionFailed
         else
           (case get_output_internal cfg tbl net state (nat symmetry) False of
              Inl e \<Rightarrow> Inl e
            | Inr result \<Rightarrow> Inr (result, net)))
      else if ensemble = AVERAGE then
        (case average_loop cfg tbl net state [0..<NUM_SYMMETRIES] (Netresult_init cfg) of
           Inl e \<Rightarrow> Inl e
         | Inr result \<Rightarrow> Inr (result, net))
      else
        (if ensemble \<noteq> RANDOM_SYMMETRY then Inl AssertionFailed
         else if symmetry \<noteq> - 1 then Inl AssertionFailed
         else
           (let rand_sym = fst (randfix NUM_SYMMETRIES net);
                net1 = snd (randfix NUM_SYMMETRIES net)
            in case get_output_internal cfg tbl net1 state rand_sym False of
                 Inl e \<Rightarrow> Inl e
               | Inr result \<Rightarrow>
                   if USE_OPENCL_SELFCHECK cfg \<and> m_forward_cpu net1 \<noteq> None then
                     (let draw = fst (randfix (SELFCHECK_PROBABILITY cfg) net1);
                          net2 = snd (randfix (SELFCHECK_PROBABILITY cfg) net1)
                      in if draw = 0 then
                           (case get_output_internal cfg tbl net2 state rand_sym True of
                              Inl e \<Rightarrow> Inl e
                            | Inr result_ref \<Rightarrow>
                                (case compare_net_outputs result result_ref
                                        (m_selfcheck_fails net2) of
                                   Inl e \<Rightarrow> Inl e
                                 | Inr fails \<Rightarrow>
                                     Inr (result, net2\<lparr>m_selfcheck_fails := fails\<rparr>)))
                         else Inr (result, net2))
                   else Inr (result, net1))))"

text \<open>The adjustment for a value head that reports for Black.\<close>

definition value_head_adjust :: "Network \<Rightarrow> GameState \<Rightarrow> Netresult \<Rightarrow> Netresult" where
  "value_head_adjust net state result =
     (if m_value_head_not_stm net then
        (if get_to_move (board state) = WHITE
         then result\<lparr>winrate := fsub (Fin 1) (winrate result)\<rparr>
         else result)
      else result)"

text \<open>\<^verbatim>\<open>Network::get_output\<close>. It returns the result and the network object as it leaves it.\<close>

definition get_output ::
  "config \<Rightarrow> nat list list \<Rightarrow> Network \<Rightarrow> GameState \<Rightarrow> Ensemble \<Rightarrow> int \<Rightarrow> bool
     \<Rightarrow> error + Netresult \<times> Network" where
  "get_output cfg tbl net state ensemble symmetry skip_cache =
     (if get_boardsize (board state) \<noteq> int (BOARD_SIZE cfg)
      then Inr (Netresult_init cfg, net)
      else
        (case (if \<not> skip_cache then probe_cache cfg tbl net state else None) of
           Some result \<Rightarrow> Inr (result, net)
         | None \<Rightarrow>
             (case get_output_ensemble cfg tbl net state ensemble symmetry of
                Inl e \<Rightarrow> Inl e
              | Inr (result0, net1) \<Rightarrow>
                  (let result = value_head_adjust net1 state result0
                   in Inr (result,
                           net1\<lparr>m_nncache :=
                                  NNCache_insert (get_hash (board state)) result
                                    (m_nncache net1)\<rparr>)))))"

subsection \<open>Loading a weight file\<close>

text \<open>
  What \<^verbatim>\<open>gzopen\<close> and the \<^verbatim>\<open>gzread\<close> loop leave: the file cannot be opened, a read
  fails, or the whole content is in the buffer.
\<close>

datatype gzfile = CannotOpen | ReadFailed | Contents string

text \<open>
  \<^verbatim>\<open>std::getline\<close> until it fails: a line ends at a newline or at the end of the buffer,
  and nothing is read after the last newline when nothing follows it.
\<close>

fun getlines :: "string \<Rightarrow> string \<Rightarrow> string list" where
  "getlines acc [] = (if acc = [] then [] else [rev acc])"
| "getlines acc (c # cs) =
     (if c = CHR 0x0A then rev acc # getlines [] cs else getlines (c # acc) cs)"

definition isspace :: "char \<Rightarrow> bool" where
  "isspace c = (c \<in> set [CHR '' '', CHR 0x09, CHR 0x0A, CHR 0x0B, CHR 0x0C, CHR 0x0D])"

definition isdigit :: "char \<Rightarrow> bool" where
  "isdigit c = (48 \<le> (of_char c :: nat) \<and> (of_char c :: nat) \<le> 57)"

fun read_digits :: "nat \<Rightarrow> string \<Rightarrow> nat" where
  "read_digits acc [] = acc"
| "read_digits acc (c # cs) =
     (if isdigit c then read_digits (acc * 10 + (of_char c - 48)) cs else acc)"

text \<open>
  \<^verbatim>\<open>iss >> format_version\<close> for an \<^verbatim>\<open>int\<close>: leading white space is skipped, a sign may
  come first, then at least one decimal digit; the extraction stops at the first other
  character. \<open>None\<close> is \<^verbatim>\<open>iss.fail()\<close>: no digit, or a value that no \<^verbatim>\<open>int\<close> holds.
\<close>

definition stream_read_int :: "string \<Rightarrow> int option" where
  "stream_read_int s =
     (let s1 = dropWhile isspace s;
          neg = (s1 \<noteq> [] \<and> hd s1 = CHR ''-'');
          s2 = (if s1 \<noteq> [] \<and> (hd s1 = CHR ''-'' \<or> hd s1 = CHR ''+'') then tl s1 else s1)
      in if s2 = [] \<or> \<not> isdigit (hd s2) then None
         else
           (let v = int (read_digits 0 s2);
                n = (if neg then - v else v)
            in if n < - (2 ^ 31) \<or> 2 ^ 31 - 1 < n then None else Some n))"

text \<open>The number of white-space separated words of a line
  (\<^verbatim>\<open>std::distance\<close> of two \<^verbatim>\<open>istream_iterator<std::string>\<close>).\<close>

fun count_tokens :: "bool \<Rightarrow> string \<Rightarrow> nat" where
  "count_tokens in_token [] = 0"
| "count_tokens in_token (c # cs) =
     (if isspace c then count_tokens False cs
      else if in_token then count_tokens True cs
      else 1 + count_tokens True cs)"

definition process_bn_var :: "float list \<Rightarrow> float list" where
  "process_bn_var weights = map (\<lambda>w. fdiv (Fin 1) (fsqrt (fadd w (Fin (1 / 100000))))) weights"

text \<open>\<^verbatim>\<open>std::copy\<close> of a vector to the beginning of a fixed-size array.\<close>

definition std_copy :: "float list \<Rightarrow> float list \<Rightarrow> float list" where
  "std_copy weights arr = weights @ drop (length weights) arr"

text \<open>\<^verbatim>\<open>size_t\<close> is 64 bits wide and wraps; \<^verbatim>\<open>static_cast<int>\<close> keeps the low 32 bits,
  read as a signed value.\<close>

definition size_t_wrap :: "int \<Rightarrow> nat" where
  "size_t_wrap i = nat (i mod 2 ^ 64)"

definition static_cast_int :: "nat \<Rightarrow> int" where
  "static_cast_int n =
     (let m = int n mod 2 ^ 32 in if m < 2 ^ 31 then m else m - 2 ^ 32)"

text \<open>
  The body of the second loop of \<^verbatim>\<open>Network::load_v1_network\<close> after a line has been
  parsed: the tensor goes to the member that the line number selects. The size
  assertions are those of the source (the input block and the squeeze-excitation lines
  11 to 13 have none).
\<close>

definition route_weights :: "nat \<Rightarrow> nat \<Rightarrow> nat \<Rightarrow> float list \<Rightarrow> Network \<Rightarrow> error + Network" where
  "route_weights channels plain_conv_wts linecount weights net =
     (let input_weights = 6;
          at_slot = (\<lambda>k. linecount = size_t_wrap (int plain_conv_wts + k));
          sized = (\<lambda>n net1. if length weights = n then Inr net1 else Inl AssertionFailed)
      in
      if linecount < input_weights then
        (if linecount mod 6 = 0 then Inr (net\<lparr>m_conv_weights := m_conv_weights net @ [weights]\<rparr>)
         else if linecount mod 6 = 1
           then Inr (net\<lparr>m_batchnorm_gammas := m_batchnorm_gammas net @ [weights]\<rparr>)
         else if linecount mod 6 = 2
           then Inr (net\<lparr>m_batchnorm_betas := m_batchnorm_betas net @ [weights]\<rparr>)
         else if linecount mod 6 = 3
           then Inr (net\<lparr>m_batchnorm_means := m_batchnorm_means net @ [weights]\<rparr>)
         else if linecount mod 6 = 4
           then Inr (net\<lparr>m_batchnorm_stddivs :=
                           m_batchnorm_stddivs net @ [process_bn_var weights]\<rparr>)
         else if linecount mod 6 = 5
           then Inr (net\<lparr>m_prelu_alphas := m_prelu_alphas net @ [weights]\<rparr>)
         else Inr net)
      else if linecount < plain_conv_wts then
        (let k = (linecount - input_weights) mod 16 in
         if k = 0 \<or> k = 6 then
           sized (channels * channels * 9)
             (net\<lparr>m_conv_weights := m_conv_weights net @ [weights]\<rparr>)
         else if k = 1 \<or> k = 7 then
           sized channels (net\<lparr>m_batchnorm_gammas := m_batchnorm_gammas net @ [weights]\<rparr>)
         else if k = 2 \<or> k = 8 then
           sized channels (net\<lparr>m_batchnorm_betas := m_batchnorm_betas net @ [weights]\<rparr>)
         else if k = 3 \<or> k = 9 then
           sized channels (net\<lparr>m_batchnorm_means := m_batchnorm_means net @ [weights]\<rparr>)
         else if k = 4 \<or> k = 10 then
           sized channels
             (net\<lparr>m_batchnorm_stddivs := m_batchnorm_stddivs net @ [process_bn_var weights]\<rparr>)
         else if k = 5 \<or> k = 15 then
           sized channels (net\<lparr>m_prelu_alphas := m_prelu_alphas net @ [weights]\<rparr>)
         else if k = 11 then Inr (net\<lparr>m_se_fc1_w := m_se_fc1_w net @ [weights]\<rparr>)
         else if k = 12 then Inr (net\<lparr>m_se_fc1_b := m_se_fc1_b net @ [weights]\<rparr>)
         else if k = 13 then Inr (net\<lparr>m_se_fc2_w := m_se_fc2_w net @ [weights]\<rparr>)
         else sized channels (net\<lparr>m_se_fc2_b := m_se_fc2_b net @ [weights]\<rparr>))
      else if at_slot 0 then Inr (net\<lparr>m_conv_pol_w := weights\<rparr>)
      else if at_slot 1 then Inr (net\<lparr>m_conv_pol_b := weights\<rparr>)
      else if at_slot 2 then Inr (net\<lparr>m_bn_pol_w1 := std_copy weights (m_bn_pol_w1 net)\<rparr>)
      else if at_slot 3
        then Inr (net\<lparr>m_bn_pol_w2 := std_copy (process_bn_var weights) (m_bn_pol_w2 net)\<rparr>)
      else if at_slot 4
        then Inr (net\<lparr>m_prelu_pol_alpha := std_copy weights (m_prelu_pol_alpha net)\<rparr>)
      else if at_slot 5 then Inr (net\<lparr>m_ip_pol_w := std_copy weights (m_ip_pol_w net)\<rparr>)
      else if at_slot 6 then Inr (net\<lparr>m_ip_pol_b := std_copy weights (m_ip_pol_b net)\<rparr>)
      else if at_slot 7 then Inr (net\<lparr>m_conv_val_w := weights\<rparr>)
      else if at_slot 8 then Inr (net\<lparr>m_conv_val_b := weights\<rparr>)
      else if at_slot 9 then Inr (net\<lparr>m_bn_val_w1 := std_copy weights (m_bn_val_w1 net)\<rparr>)
      else if at_slot 10
        then Inr (net\<lparr>m_bn_val_w2 := std_copy (process_bn_var weights) (m_bn_val_w2 net)\<rparr>)
      else if at_slot 11
        then Inr (net\<lparr>m_prelu_val_alpha := std_copy weights (m_prelu_val_alpha net)\<rparr>)
      else if at_slot 12 then Inr (net\<lparr>m_ip1_val_w := std_copy weights (m_ip1_val_w net)\<rparr>)
      else if at_slot 13 then Inr (net\<lparr>m_ip1_val_b := std_copy weights (m_ip1_val_b net)\<rparr>)
      else if at_slot 14 then Inr (net\<lparr>m_ip2_val_w := std_copy weights (m_ip2_val_w net)\<rparr>)
      else if at_slot 15 then Inr (net\<lparr>m_ip2_val_b := std_copy weights (m_ip2_val_b net)\<rparr>)
      else Inr net)"

text \<open>
  The second loop. \<open>phrase_parse\<close> is the parser of a line of floats, a library function:
  \<open>None\<close> where the source finds \<^verbatim>\<open>!ok || it_line != line.cend()\<close>. The loop answers
  whether every line was parsed, with the network object as the loop left it.
\<close>

fun load_lines ::
  "(string \<Rightarrow> float list option) \<Rightarrow> nat \<Rightarrow> nat \<Rightarrow> nat \<Rightarrow> string list \<Rightarrow> Network
     \<Rightarrow> error + bool \<times> Network" where
  "load_lines phrase_parse channels plain_conv_wts linecount [] net = Inr (True, net)"
| "load_lines phrase_parse channels plain_conv_wts linecount (line # rest) net =
     (case phrase_parse line of
        None \<Rightarrow> Inr (False, net)
      | Some weights \<Rightarrow>
          (case route_weights channels plain_conv_wts linecount weights net of
             Inl e \<Rightarrow> Inl e
           | Inr net1 \<Rightarrow>
               load_lines phrase_parse channels plain_conv_wts (linecount + 1) rest net1))"

text \<open>\<^verbatim>\<open>Network::load_v1_network\<close> on the lines that follow the version line.\<close>

definition load_v1_network ::
  "(string \<Rightarrow> float list option) \<Rightarrow> string list \<Rightarrow> Network
     \<Rightarrow> error + (int \<times> int) \<times> Network" where
  "load_v1_network phrase_parse lines net =
     (let counted = fold (\<lambda>line (linecount, channels).
                            (linecount + 1,
                             if linecount = 2 then count_tokens False line else channels))
                         lines (1 :: nat, 0 :: nat);
          linecount = fst counted;
          channels = snd counted;
          residual_blocks0 = size_t_wrap (int linecount - (1 + 6 + 16))
      in if residual_blocks0 mod 16 \<noteq> 0 then Inr ((0, 0), net)
         else
           (let residual_blocks = residual_blocks0 div 16;
                plain_conv_wts = size_t_wrap (6 + int residual_blocks * 16)
            in case load_lines phrase_parse channels plain_conv_wts 0 lines net of
                 Inl e \<Rightarrow> Inl e
               | Inr (ok, net1) \<Rightarrow>
                   if \<not> ok then Inr ((0, 0), net1)
                   else Inr ((int channels, static_cast_int residual_blocks), net1)))"

text \<open>\<^verbatim>\<open>Network::load_network_file\<close>.\<close>

definition load_network_file ::
  "(string \<Rightarrow> float list option) \<Rightarrow> gzfile \<Rightarrow> Network \<Rightarrow> error + (int \<times> int) \<times> Network" where
  "load_network_file phrase_parse file net =
     (case file of
        CannotOpen \<Rightarrow> Inr ((0, 0), net)
      | ReadFailed \<Rightarrow> Inr ((0, 0), net)
      | Contents buffer \<Rightarrow>
          (case getlines [] buffer of
             [] \<Rightarrow> Inr ((0, 0), net)
           | line # rest \<Rightarrow>
               (let format_version = stream_read_int line in
                if format_version = None \<or> format_version \<noteq> Some 502 then Inr ((0, 0), net)
                else
                  (let net1 = (if format_version = Some 2
                               then net\<lparr>m_value_head_not_stm := True\<rparr>
                               else net\<lparr>m_value_head_not_stm := False\<rparr>)
                   in load_v1_network phrase_parse rest net1))))"

subsection \<open>A small configuration for examples\<close>

text \<open>A board of side 2 with one history step and one liberty plane: nine input planes.\<close>

definition cfg2 :: config where
  "cfg2 = \<lparr>BOARD_SIZE = 2, INPUT_MOVES = 1, LIBERTY_PLANES = 1, INPUT_CHANNELS = 9,
            TRAINED_UNIT_KOMI = 15 / 2, SELFCHECK_PROBABILITY = 2000,
            USE_OPENCL_SELFCHECK = True, cfg_noise = False, cfg_random_cnt = 0\<rparr>"

text \<open>
  A network object before any file is loaded: an empty cache, no recorded self-checks, no
  tensors, and a backend that answers every input with the same five outputs.
\<close>

definition net0 :: Network where
  "net0 = \<lparr>m_value_head_not_stm = False, m_nncache = Map.empty, m_selfcheck_fails = [],
            m_forward = (\<lambda>inp. ([Fin (1 / 10), Fin (2 / 10), Fin (3 / 10), Fin (1 / 4),
                                  Fin (3 / 20)], Fin (3 / 4))),
            m_forward_cpu = None, rng_draws = (\<lambda>i. 0), rng_pos = 0,
            m_conv_weights = [], m_batchnorm_gammas = [], m_batchnorm_betas = [],
            m_batchnorm_means = [], m_batchnorm_stddivs = [], m_prelu_alphas = [],
            m_se_fc1_w = [], m_se_fc1_b = [], m_se_fc2_w = [], m_se_fc2_b = [],
            m_conv_pol_w = [], m_conv_pol_b = [], m_bn_pol_w1 = [], m_bn_pol_w2 = [],
            m_prelu_pol_alpha = [], m_ip_pol_w = [], m_ip_pol_b = [],
            m_conv_val_w = [], m_conv_val_b = [], m_bn_val_w1 = [], m_bn_val_w2 = [],
            m_prelu_val_alpha = [], m_ip1_val_w = [], m_ip1_val_b = [],
            m_ip2_val_w = [], m_ip2_val_b = []\<rparr>"

text \<open>
  Two weight files of the smallest shape, a version line and 22 tensor lines (no residual
  block), that differ in the version line only, and a line parser for them.
\<close>

definition weights_file_502 :: string where
  "weights_file_502 = ''502\<newline>1 1\<newline>1 1\<newline>1 1\<newline>1 1\<newline>1 1\<newline>1 1\<newline>1 1\<newline>1 1\<newline>1 1\<newline>1 1\<newline>1 1\<newline>1 1\<newline>1 1\<newline>1 1\<newline>1 1\<newline>1 1\<newline>1 1\<newline>1 1\<newline>1 1\<newline>1 1\<newline>1 1\<newline>1 1\<newline>''"

definition weights_file_2 :: string where
  "weights_file_2 = ''2\<newline>1 1\<newline>1 1\<newline>1 1\<newline>1 1\<newline>1 1\<newline>1 1\<newline>1 1\<newline>1 1\<newline>1 1\<newline>1 1\<newline>1 1\<newline>1 1\<newline>1 1\<newline>1 1\<newline>1 1\<newline>1 1\<newline>1 1\<newline>1 1\<newline>1 1\<newline>1 1\<newline>1 1\<newline>1 1\<newline>''"

definition tensor_lines :: "string list" where
  "tensor_lines = [''1 1'', ''1 1'', ''1 1'', ''1 1'', ''1 1'', ''1 1'', ''1 1'', ''1 1'', ''1 1'', ''1 1'', ''1 1'', ''1 1'', ''1 1'', ''1 1'', ''1 1'', ''1 1'', ''1 1'', ''1 1'', ''1 1'', ''1 1'', ''1 1'', ''1 1'']"

definition example_parse :: "string \<Rightarrow> float list option" where
  "example_parse line = Some [Fin 1, Fin 1]"

text \<open>
  The full-size configuration: a board of side 19, eight history steps, a komi unit of
  7.5 and one self-check in 2000, with four liberty planes, 29 input planes in all.
\<close>

definition cfg19 :: config where
  "cfg19 = \<lparr>BOARD_SIZE = 19, INPUT_MOVES = 8, LIBERTY_PLANES = 4, INPUT_CHANNELS = 29,
             TRAINED_UNIT_KOMI = 15 / 2, SELFCHECK_PROBABILITY = 2000,
             USE_OPENCL_SELFCHECK = True, cfg_noise = False, cfg_random_cnt = 0\<rparr>"

text \<open>
  An empty board of a given side, and a game state at move 0 on a given board with given
  symmetry hashes: komi 7.5, every move legal, no ladders, and an opening window of a
  sixth of the intersections.
\<close>

definition empty_board :: "int \<Rightarrow> square \<Rightarrow> hash \<Rightarrow> FullBoard" where
  "empty_board n to_move h =
     \<lparr>get_boardsize = n, get_to_move = to_move, get_hash = h,
      get_vertex = (\<lambda>x y. (y + 1) * (n + 2) + (x + 1)),
      get_square = (\<lambda>v. EMPTY), get_liberties = (\<lambda>x y. 0)\<rparr>"

definition opening_state :: "FullBoard \<Rightarrow> (nat \<Rightarrow> hash) \<Rightarrow> GameState" where
  "opening_state b symmetry_hashes =
     \<lparr>board = b, get_movenum = 0, get_komi = Fin (15 / 2), get_past_board = (\<lambda>h. b),
      get_symmetry_hash = symmetry_hashes, is_move_legal = (\<lambda>c v. True),
      opening_moves = (\<lambda>n. n * n div 6),
      ladder_capture = (\<lambda>v. False), ladder_escape = (\<lambda>v. False)\<rparr>"

text \<open>A state on a board of side 9, which is not the side of \<open>cfg19\<close>.\<close>

definition state9 :: GameState where
  "state9 = opening_state (empty_board 9 BLACK 5) (\<lambda>s. 5)"

text \<open>
  A board of side 2 with White to move. A board of side 19 with one black stone in the
  corner at (0, 0) and White to move, at move 1: the transposed position is the position
  itself, so the symmetries 0 and 4 share a hash, and so do 1 and 5, 2 and 6, 3 and 7.
\<close>

definition state2w :: GameState where
  "state2w = opening_state (empty_board 2 WHITE 5) (\<lambda>s. 5)"

definition corner_board :: FullBoard where
  "corner_board =
     \<lparr>get_boardsize = 19, get_to_move = WHITE, get_hash = 5,
      get_vertex = (\<lambda>x y. (y + 1) * 21 + (x + 1)),
      get_square = (\<lambda>v. if v = 22 then BLACK else EMPTY), get_liberties = (\<lambda>x y. 2)\<rparr>"

definition state19 :: GameState where
  "state19 = (opening_state corner_board (\<lambda>s. 5 + 100 * of_nat (s mod 4)))\<lparr>get_movenum := 1\<rparr>"

text \<open>
  A stored result whose policy is all on vertex 2, and a network object of the full size
  whose cache holds that result under one given hash and nothing else.
\<close>

definition stored19 :: Netresult where
  "stored19 = \<lparr>policy = (replicate 361 (Fin 0))[2 := Fin 1], policy_pass = Fin 0,
               winrate = Fin (1 / 2)\<rparr>"

definition net19 :: "hash \<Rightarrow> Network" where
  "net19 h = net0\<lparr>m_nncache := NNCache_insert h stored19 Map.empty,
                  m_forward := (\<lambda>inp. (replicate 362 (Fin (1 / 362)), Fin (3 / 4)))\<rparr>"

text \<open>
  Two pairs of results for the self-check: one whose policies differ by a factor of two,
  one whose results agree.
\<close>

definition bad_pair :: "Netresult \<times> Netresult" where
  "bad_pair = (\<lparr>policy = [Fin (1 / 2)], policy_pass = Fin 0, winrate = Fin (1 / 2)\<rparr>,
               \<lparr>policy = [Fin (1 / 4)], policy_pass = Fin 0, winrate = Fin (1 / 2)\<rparr>)"

definition good_pair :: "Netresult \<times> Netresult" where
  "good_pair = (\<lparr>policy = [Fin (1 / 2)], policy_pass = Fin 0, winrate = Fin (1 / 2)\<rparr>,
                \<lparr>policy = [Fin (1 / 2)], policy_pass = Fin 0, winrate = Fin (1 / 2)\<rparr>)"

text \<open>
  The win-rates of the eight single evaluations of \<open>state19\<close> on the network object whose
  cache holds \<open>stored19\<close> under the hash of that state.
\<close>

definition per_symmetry_winrates19 :: "float list" where
  "per_symmetry_winrates19 =
     map (\<lambda>s. winrate (projr (get_output_internal cfg19 (symmetry_nn_idx_table cfg19)
                                (net19 5) state19 s False)))
         [0..<NUM_SYMMETRIES]"

text \<open>The first position of a game on the full board: empty, Black to move, komi 7.5.\<close>

definition initial_state19 :: GameState where
  "initial_state19 = opening_state (empty_board 19 BLACK 7) (\<lambda>s. 7)"

text \<open>
  A board of side 2 with a black stone at (0, 0) and a white stone at (1, 0), Black to
  move, at move 2: its eight symmetric images are eight different positions. A backend
  whose win-rate weighs the stone planes of its input, so that it tells the eight images
  apart; all its outputs are sixteenths.
\<close>

definition two_stone_board :: FullBoard where
  "two_stone_board =
     \<lparr>get_boardsize = 2, get_to_move = BLACK, get_hash = 9,
      get_vertex = (\<lambda>x y. (y + 1) * 4 + (x + 1)),
      get_square = (\<lambda>v. if v = 5 then BLACK else if v = 6 then WHITE else EMPTY),
      get_liberties = (\<lambda>x y. 1)\<rparr>"

definition state2s :: GameState where
  "state2s = (opening_state two_stone_board (\<lambda>s. 9 + of_nat s))\<lparr>get_movenum := 2\<rparr>"

fun float_value :: "float \<Rightarrow> real" where
  "float_value (Fin x) = x"
| "float_value NaN = 0"

definition weighted_forward :: "float list \<Rightarrow> float list \<times> float" where
  "weighted_forward inp =
     ([Fin (1 / 8), Fin (1 / 8), Fin (1 / 8), Fin (1 / 8), Fin (1 / 2)],
      Fin ((1 * float_value (inp ! 0) + 2 * float_value (inp ! 1) + 3 * float_value (inp ! 2)
            + 4 * float_value (inp ! 3) + 4 * float_value (inp ! 5)
            + 8 * float_value (inp ! 6) + 12 * float_value (inp ! 7)) / 16))"

definition net2 :: Network where
  "net2 = net0\<lparr>m_forward := weighted_forward\<rparr>"

section \<open>The symmetry table\<close>

lemma mapE_total:
  "(\<And>x. x \<in> set xs \<Longrightarrow> f x = Inr (g x)) \<Longrightarrow> mapE f xs = Inr (map g xs)"
  by (induction xs) auto

lemma lt8_cases: "s < (8::nat) \<Longrightarrow> s = 0 \<or> s = 1 \<or> s = 2 \<or> s = 3 \<or> s = 4 \<or> s = 5 \<or> s = 6 \<or> s = 7"
  by arith

lemma spec_symmetry_range:
  assumes "0 \<le> x" "x < n" "0 \<le> y" "y < n"
  shows "0 \<le> fst (spec_symmetry n s (x, y)) \<and> fst (spec_symmetry n s (x, y)) < n \<and>
         0 \<le> snd (spec_symmetry n s (x, y)) \<and> snd (spec_symmetry n s (x, y)) < n"
  using assms by (auto simp: spec_symmetry_def mirror_x_def mirror_y_def transpose_xy_def)

lemma get_symmetry_spec:
  assumes "0 \<le> x" "x < n" "0 \<le> y" "y < n" "s < 8"
  shows "get_symmetry (x, y) (int s) n = Inr (spec_symmetry n s (x, y))"
  using lt8_cases[OF assms(5)] assms(1-4)
  by (elim disjE)
     (simp_all add: get_symmetry_def spec_symmetry_def mirror_x_def mirror_y_def
        transpose_xy_def NUM_SYMMETRIES_def IDENTITY_SYMMETRY_def bit_Suc_0_iff)


lemma spec_symmetry_inj: "inj (spec_symmetry n s)"
  by (auto simp: spec_symmetry_def mirror_x_def mirror_y_def transpose_xy_def inj_def)

lemma spec_symmetry_0: "spec_symmetry n 0 p = p"
  by (simp add: spec_symmetry_def)

lemma xy_vertex_vertex_xy: "xy_vertex cfg (vertex_xy cfg v) = v"
  by (simp add: xy_vertex_def vertex_xy_def flip: of_nat_mult of_nat_add)

lemma vertex_xy_range:
  assumes "v < NUM_INTERSECTIONS cfg"
  shows "0 \<le> fst (vertex_xy cfg v) \<and> fst (vertex_xy cfg v) < int (BOARD_SIZE cfg) \<and>
         0 \<le> snd (vertex_xy cfg v) \<and> snd (vertex_xy cfg v) < int (BOARD_SIZE cfg)"
proof -
  from assms have pos: "0 < BOARD_SIZE cfg"
    by (cases "BOARD_SIZE cfg") (simp_all add: NUM_INTERSECTIONS_def)
  from assms have "v div BOARD_SIZE cfg < BOARD_SIZE cfg"
    by (simp add: NUM_INTERSECTIONS_def less_mult_imp_div_less)
  with pos show ?thesis by (simp add: vertex_xy_def)
qed

lemma xy_vertex_range:
  assumes "0 \<le> x" "x < int (BOARD_SIZE cfg)" "0 \<le> y" "y < int (BOARD_SIZE cfg)"
  shows "0 \<le> y * int (BOARD_SIZE cfg) + x \<and> y * int (BOARD_SIZE cfg) + x < int (NUM_INTERSECTIONS cfg)"
proof -
  have "y + 1 \<le> int (BOARD_SIZE cfg)" using assms by simp
  then have "(y + 1) * int (BOARD_SIZE cfg) \<le> int (BOARD_SIZE cfg) * int (BOARD_SIZE cfg)"
    by (intro mult_right_mono) simp_all
  then have "y * int (BOARD_SIZE cfg) + x < int (BOARD_SIZE cfg) * int (BOARD_SIZE cfg)"
    using assms by (simp add: algebra_simps)
  then show ?thesis using assms by (simp add: NUM_INTERSECTIONS_def)
qed

lemma xy_vertex_inj:
  assumes "0 \<le> fst p" "fst p < int (BOARD_SIZE cfg)" "0 \<le> snd p"
      and "0 \<le> fst q" "fst q < int (BOARD_SIZE cfg)" "0 \<le> snd q"
      and "xy_vertex cfg p = xy_vertex cfg q"
  shows "p = q"
proof -
  let ?B = "int (BOARD_SIZE cfg)"
  have "0 \<le> snd p * ?B + fst p" "0 \<le> snd q * ?B + fst q"
    using assms by simp_all
  then have e: "snd p * ?B + fst p = snd q * ?B + fst q"
    using assms(7) by (simp add: xy_vertex_def)
  have "(snd p * ?B + fst p) div ?B = snd p" "(snd p * ?B + fst p) mod ?B = fst p"
    using assms(1,2) by simp_all
  moreover have "(snd q * ?B + fst q) div ?B = snd q" "(snd q * ?B + fst q) mod ?B = fst q"
    using assms(4,5) by simp_all
  ultimately show ?thesis using e by (simp add: prod_eq_iff)
qed

lemma symmetry_entry_spec:
  assumes "s < 8" "v < NUM_INTERSECTIONS cfg"
  shows "symmetry_entry cfg s v = Inr (symmetry_nn_idx cfg s v)"
proof -
  note r = vertex_xy_range[OF assms(2)]
  obtain x y where xy: "vertex_xy cfg v = (x, y)" by (cases "vertex_xy cfg v")
  with r have b: "0 \<le> x" "x < int (BOARD_SIZE cfg)" "0 \<le> y" "y < int (BOARD_SIZE cfg)" by simp_all
  note g = get_symmetry_spec[OF b assms(1)]
  note sr = spec_symmetry_range[OF b, of s]
  from sr have "0 \<le> snd (spec_symmetry (int (BOARD_SIZE cfg)) s (x, y)) * int (BOARD_SIZE cfg) + fst (spec_symmetry (int (BOARD_SIZE cfg)) s (x, y))
     \<and> snd (spec_symmetry (int (BOARD_SIZE cfg)) s (x, y)) * int (BOARD_SIZE cfg) + fst (spec_symmetry (int (BOARD_SIZE cfg)) s (x, y)) < int (NUM_INTERSECTIONS cfg)"
    by (intro xy_vertex_range) simp_all
  then show ?thesis
    using g xy by (simp add: symmetry_entry_def symmetry_nn_idx_def xy_vertex_def vertex_xy_def Let_def)
qed

lemma symmetry_nn_idx_range:
  assumes "v < NUM_INTERSECTIONS cfg"
  shows "symmetry_nn_idx cfg s v < NUM_INTERSECTIONS cfg"
proof -
  note r = vertex_xy_range[OF assms]
  obtain x y where xy: "vertex_xy cfg v = (x, y)" by (cases "vertex_xy cfg v")
  with r have b: "0 \<le> x" "x < int (BOARD_SIZE cfg)" "0 \<le> y" "y < int (BOARD_SIZE cfg)" by simp_all
  note sr = spec_symmetry_range[OF b, of s]
  from sr have "0 \<le> snd (spec_symmetry (int (BOARD_SIZE cfg)) s (x, y)) * int (BOARD_SIZE cfg) + fst (spec_symmetry (int (BOARD_SIZE cfg)) s (x, y))
     \<and> snd (spec_symmetry (int (BOARD_SIZE cfg)) s (x, y)) * int (BOARD_SIZE cfg) + fst (spec_symmetry (int (BOARD_SIZE cfg)) s (x, y)) < int (NUM_INTERSECTIONS cfg)"
    by (intro xy_vertex_range) simp_all
  then show ?thesis using xy by (simp add: symmetry_nn_idx_def xy_vertex_def nat_less_iff)
qed

lemma symmetry_nn_idx_inj_on: "inj_on (symmetry_nn_idx cfg s) {..<NUM_INTERSECTIONS cfg}"
proof (rule inj_onI)
  fix v w assume v: "v \<in> {..<NUM_INTERSECTIONS cfg}" and w: "w \<in> {..<NUM_INTERSECTIONS cfg}"
    and e: "symmetry_nn_idx cfg s v = symmetry_nn_idx cfg s w"
  let ?n = "int (BOARD_SIZE cfg)"
  obtain x y where xy: "vertex_xy cfg v = (x, y)" by (cases "vertex_xy cfg v")
  obtain x' y' where xy': "vertex_xy cfg w = (x', y')" by (cases "vertex_xy cfg w")
  from vertex_xy_range[of v cfg] v xy have b: "0 \<le> x" "x < ?n" "0 \<le> y" "y < ?n" by simp_all
  from vertex_xy_range[of w cfg] w xy' have b': "0 \<le> x'" "x' < ?n" "0 \<le> y'" "y' < ?n" by simp_all
  have "spec_symmetry ?n s (x, y) = spec_symmetry ?n s (x', y')"
    using spec_symmetry_range[OF b, of s] spec_symmetry_range[OF b', of s] e xy xy'
    by (intro xy_vertex_inj[of _ cfg]) (simp_all add: symmetry_nn_idx_def)
  then have "vertex_xy cfg v = vertex_xy cfg w"
    using xy xy' spec_symmetry_inj[of ?n s] by (simp add: inj_def)
  then have "xy_vertex cfg (vertex_xy cfg v) = xy_vertex cfg (vertex_xy cfg w)" by simp
  then show "v = w" by (simp add: xy_vertex_vertex_xy)
qed

lemma symmetry_nn_idx_bij: "bij_betw (symmetry_nn_idx cfg s) {..<NUM_INTERSECTIONS cfg} {..<NUM_INTERSECTIONS cfg}"
proof -
  have "symmetry_nn_idx cfg s ` {..<NUM_INTERSECTIONS cfg} \<subseteq> {..<NUM_INTERSECTIONS cfg}"
    using symmetry_nn_idx_range by auto
  then have "symmetry_nn_idx cfg s ` {..<NUM_INTERSECTIONS cfg} = {..<NUM_INTERSECTIONS cfg}"
    using symmetry_nn_idx_inj_on[of cfg s] by (intro endo_inj_surj) simp_all
  then show ?thesis using symmetry_nn_idx_inj_on[of cfg s] by (simp add: bij_betw_def)
qed

lemma build_symmetry_table_eq:
  "build_symmetry_table cfg =
     Inr (map (\<lambda>s. map (symmetry_nn_idx cfg s) [0..<NUM_INTERSECTIONS cfg]) [0..<NUM_SYMMETRIES])"
  unfolding build_symmetry_table_def
proof (rule mapE_total)
  fix s assume "s \<in> set [0..<NUM_SYMMETRIES]"
  then have s: "s < 8" by (simp add: NUM_SYMMETRIES_def)
  show "mapE (symmetry_entry cfg s) [0..<NUM_INTERSECTIONS cfg] = Inr (map (symmetry_nn_idx cfg s) [0..<NUM_INTERSECTIONS cfg])"
    by (rule mapE_total) (simp add: symmetry_entry_spec[OF s])
qed


lemma build_symmetry_table_is:
  "build_symmetry_table cfg = Inr (symmetry_nn_idx_table cfg)"
  by (simp add: build_symmetry_table_eq symmetry_nn_idx_table_def)

lemma symmetry_nn_idx_table_nth:
  "s < 8 \<Longrightarrow> v < NUM_INTERSECTIONS cfg
     \<Longrightarrow> symmetry_nn_idx_table cfg ! s ! v = symmetry_nn_idx cfg s v"
  by (simp add: symmetry_nn_idx_table_def NUM_SYMMETRIES_def)

lemma build_symmetry_table_nth:
  assumes "build_symmetry_table cfg = Inr tbl" "s < 8" "v < NUM_INTERSECTIONS cfg"
  shows "tbl ! s ! v = symmetry_nn_idx cfg s v"
proof -
  from assms(1) have
    "tbl = map (\<lambda>s. map (symmetry_nn_idx cfg s) [0..<NUM_INTERSECTIONS cfg]) [0..<NUM_SYMMETRIES]"
    by (simp add: build_symmetry_table_eq)
  then show ?thesis using assms(2,3) by (simp add: NUM_SYMMETRIES_def)
qed

lemma build_symmetry_table_length:
  assumes "build_symmetry_table cfg = Inr tbl" "s < 8"
  shows "length (tbl ! s) = NUM_INTERSECTIONS cfg"
  using assms by (auto simp: build_symmetry_table_eq NUM_SYMMETRIES_def)

text \<open>
  Claim C9. Building the table never fails an assertion. In the table, every one of the
  eight rows is a bijection on the vertices, every entry is the vertex reached by
  transposing when bit 2 of the symmetry is set, then mirroring x when bit 1 is set, then
  mirroring y when bit 0 is set, and the row of the identity maps every vertex to itself.
\<close>

theorem symmetry_table_bijections:
  "\<exists>tbl. build_symmetry_table cfg = Inr tbl \<and> length tbl = NUM_SYMMETRIES \<and>
     (\<forall>s<NUM_SYMMETRIES.
        length (tbl ! s) = NUM_INTERSECTIONS cfg \<and>
        bij_betw (\<lambda>v. tbl ! s ! v) {..<NUM_INTERSECTIONS cfg} {..<NUM_INTERSECTIONS cfg} \<and>
        (\<forall>v<NUM_INTERSECTIONS cfg.
           tbl ! s ! v = xy_vertex cfg (spec_symmetry (int (BOARD_SIZE cfg)) s (vertex_xy cfg v)))) \<and>
     (\<forall>v<NUM_INTERSECTIONS cfg. tbl ! IDENTITY_SYMMETRY ! v = v)"
proof -
  let ?N = "NUM_INTERSECTIONS cfg"
  let ?tbl = "map (\<lambda>s. map (symmetry_nn_idx cfg s) [0..<?N]) [0..<NUM_SYMMETRIES]"
  have row: "?tbl ! s ! v = symmetry_nn_idx cfg s v" if "s < NUM_SYMMETRIES" "v < ?N" for s v
    using that by simp
  have bij: "bij_betw (\<lambda>v. ?tbl ! s ! v) {..<?N} {..<?N}" if "s < NUM_SYMMETRIES" for s
  proof -
    have "bij_betw (\<lambda>v. ?tbl ! s ! v) {..<?N} {..<?N}
            \<longleftrightarrow> bij_betw (symmetry_nn_idx cfg s) {..<?N} {..<?N}"
      using that by (intro bij_betw_cong) simp
    then show ?thesis by (simp add: symmetry_nn_idx_bij)
  qed
  have ident: "?tbl ! IDENTITY_SYMMETRY ! v = v" if "v < ?N" for v
    using that
    by (simp add: IDENTITY_SYMMETRY_def NUM_SYMMETRIES_def symmetry_nn_idx_def
        spec_symmetry_0 xy_vertex_vertex_xy)
  have spec: "?tbl ! s ! v = xy_vertex cfg (spec_symmetry (int (BOARD_SIZE cfg)) s (vertex_xy cfg v))"
    if "s < NUM_SYMMETRIES" "v < ?N" for s v
    using that by (simp add: symmetry_nn_idx_def)
  have len: "length (?tbl ! s) = ?N" if "s < NUM_SYMMETRIES" for s
    using that by simp
  show ?thesis
    apply (rule exI[of _ ?tbl])
    apply (intro conjI allI impI)
         apply (rule build_symmetry_table_eq)
        apply simp
       apply (erule len)
      apply (erule bij)
     apply (erule (1) spec)
    apply (erule ident)
    done
qed

theorem symmetry_table_bijections_witness:
  "\<exists>tbl. build_symmetry_table cfg2 = Inr tbl \<and> length tbl = 8 \<and>
     bij_betw (\<lambda>v. tbl ! 6 ! v) {..<4} {..<4} \<and>
     tbl ! 6 ! 1 = 3 \<and> tbl ! 0 ! 3 = 3"
proof -
  have N: "NUM_INTERSECTIONS cfg2 = 4"
    by (simp add: NUM_INTERSECTIONS_def cfg2_def)
  from symmetry_table_bijections[of cfg2] obtain tbl where
    t: "build_symmetry_table cfg2 = Inr tbl" "length tbl = NUM_SYMMETRIES"
    and r: "\<forall>s<NUM_SYMMETRIES.
        length (tbl ! s) = NUM_INTERSECTIONS cfg2 \<and>
        bij_betw (\<lambda>v. tbl ! s ! v) {..<NUM_INTERSECTIONS cfg2} {..<NUM_INTERSECTIONS cfg2} \<and>
        (\<forall>v<NUM_INTERSECTIONS cfg2.
           tbl ! s ! v = xy_vertex cfg2 (spec_symmetry (int (BOARD_SIZE cfg2)) s (vertex_xy cfg2 v)))"
    and i: "\<forall>v<NUM_INTERSECTIONS cfg2. tbl ! IDENTITY_SYMMETRY ! v = v"
    by blast
  from r have r6: "bij_betw (\<lambda>v. tbl ! 6 ! v) {..<4} {..<4}"
    and e6: "tbl ! 6 ! 1 = xy_vertex cfg2 (spec_symmetry (int (BOARD_SIZE cfg2)) 6 (vertex_xy cfg2 1))"
    by (simp_all add: NUM_SYMMETRIES_def N)
  have "xy_vertex cfg2 (spec_symmetry (int (BOARD_SIZE cfg2)) 6 (vertex_xy cfg2 1)) = 3"
    by (simp add: xy_vertex_def spec_symmetry_def vertex_xy_def cfg2_def mirror_x_def
        transpose_xy_def bit_Suc_0_iff)
  moreover from i have "tbl ! 0 ! 3 = 3"
    by (simp add: IDENTITY_SYMMETRY_def N)
  ultimately show ?thesis
    using t r6 e6 by (auto simp: NUM_SYMMETRIES_def)
qed

section \<open>The version of a weight file\<close>

lemma case_sum_if:
  "case_sum (\<lambda>_. True) P a \<Longrightarrow> case_sum (\<lambda>_. True) P b
     \<Longrightarrow> case_sum (\<lambda>_. True) P (if c then a else b)"
  by simp

lemma route_weights_keeps_flag:
  "case_sum (\<lambda>_. True) (\<lambda>net'. m_value_head_not_stm net' = m_value_head_not_stm net)
     (route_weights ch p l w net)"
  unfolding route_weights_def Let_def
  by (intro case_sum_if) simp_all

lemma route_weights_flag:
  "route_weights ch p l w net = Inr net' \<Longrightarrow> m_value_head_not_stm net' = m_value_head_not_stm net"
  using route_weights_keeps_flag[of net ch p l w] by simp

lemma load_lines_flag:
  "load_lines pp ch p l ls net = Inr (ok, net') \<Longrightarrow> m_value_head_not_stm net' = m_value_head_not_stm net"
proof (induction ls arbitrary: l net)
  case Nil then show ?case by simp
next
  case (Cons a ls)
  then show ?case
    by (auto split: option.splits sum.splits dest: route_weights_flag)
qed

lemma load_v1_network_flag:
  "load_v1_network pp ls net = Inr (r, net') \<Longrightarrow> m_value_head_not_stm net' = m_value_head_not_stm net"
  unfolding load_v1_network_def Let_def
  by (auto split: if_splits sum.splits prod.splits dest: load_lines_flag)

text \<open>
  Claim C1, as amended. The loader accepts one format version, 502. When the first line of
  the buffer does not read as 502, \<open>load_network_file\<close> returns the sentinel \<open>(0, 0)\<close>
  and leaves the network object as it was. When it reads as 502, the value-head flag is
  cleared and the remaining lines go to \<open>load_v1_network\<close>. Hence every load that returns
  something other than the sentinel read version 502 and leaves the flag clear.
\<close>

theorem load_network_file_accepts_502_only:
  "(\<forall>buffer line rest. gz = Contents buffer \<longrightarrow> getlines [] buffer = line # rest \<longrightarrow>
       stream_read_int line \<noteq> Some 502 \<longrightarrow>
       load_network_file pp gz net = Inr ((0, 0), net)) \<and>
   (\<forall>buffer line rest. gz = Contents buffer \<longrightarrow> getlines [] buffer = line # rest \<longrightarrow>
       stream_read_int line = Some 502 \<longrightarrow>
       load_network_file pp gz net
         = load_v1_network pp rest (net\<lparr>m_value_head_not_stm := False\<rparr>)) \<and>
   (\<forall>r net'. load_network_file pp gz net = Inr (r, net') \<longrightarrow> r \<noteq> (0, 0) \<longrightarrow>
       \<not> m_value_head_not_stm net' \<and>
       (\<exists>buffer line rest. gz = Contents buffer \<and> getlines [] buffer = line # rest \<and>
          stream_read_int line = Some 502))"
proof (intro conjI allI impI)
  fix buffer line rest
  assume "gz = Contents buffer" "getlines [] buffer = line # rest" "stream_read_int line \<noteq> Some 502"
  then show "load_network_file pp gz net = Inr ((0, 0), net)"
    by (simp add: load_network_file_def)
next
  fix buffer line rest
  assume "gz = Contents buffer" "getlines [] buffer = line # rest" "stream_read_int line = Some 502"
  then show "load_network_file pp gz net = load_v1_network pp rest (net\<lparr>m_value_head_not_stm := False\<rparr>)"
    by (simp add: load_network_file_def)
next
  fix r net'
  assume l: "load_network_file pp gz net = Inr (r, net')" and r: "r \<noteq> (0, 0)"
  from l r obtain buffer where f: "gz = Contents buffer"
    by (cases gz) (auto simp: load_network_file_def)
  from l r f obtain line rest where g: "getlines [] buffer = line # rest"
    by (cases "getlines [] buffer") (auto simp: load_network_file_def)
  from l r f g have v: "stream_read_int line = Some 502"
    by (auto simp: load_network_file_def Let_def split: if_splits)
  with l f g have "load_v1_network pp rest (net\<lparr>m_value_head_not_stm := False\<rparr>) = Inr (r, net')"
    by (simp add: load_network_file_def)
  from load_v1_network_flag[OF this] show "\<not> m_value_head_not_stm net'" by simp
  from f g v show "\<exists>buffer line rest. gz = Contents buffer \<and> getlines [] buffer = line # rest \<and>
          stream_read_int line = Some 502" by blast
qed




lemma isdigit_examples:
  "isdigit (CHR ''2'')" "isdigit (CHR ''5'')" "isdigit (CHR ''0'')"
  by (simp_all add: isdigit_def)

lemma isspace_examples:
  "\<not> isspace (CHR ''2'')" "\<not> isspace (CHR ''5'')"
  by (simp_all add: isspace_def)

lemma stream_read_int_2: "stream_read_int ''2'' = Some 2"
  by (simp add: stream_read_int_def Let_def isdigit_examples isspace_examples)

lemma stream_read_int_502: "stream_read_int ''502'' = Some 502"
  by (simp add: stream_read_int_def Let_def isdigit_examples isspace_examples)

lemma getlines_weights_file_502: "getlines [] weights_file_502 = ''502'' # tensor_lines"
  by (simp add: weights_file_502_def tensor_lines_def)

lemma getlines_weights_file_2: "getlines [] weights_file_2 = ''2'' # tensor_lines"
  by (simp add: weights_file_2_def tensor_lines_def)

lemma load_v1_network_tensor_lines:
  "\<exists>net'. load_v1_network example_parse tensor_lines (net0\<lparr>m_value_head_not_stm := False\<rparr>)
            = Inr ((2, 0), net')"
  by (simp add: load_v1_network_def tensor_lines_def example_parse_def isspace_def
      size_t_wrap_def static_cast_int_def route_weights_def Let_def)

theorem load_network_file_accepts_502_only_witness:
  "load_network_file example_parse (Contents weights_file_2) net0 = Inr ((0, 0), net0) \<and>
   (\<exists>net'. load_network_file example_parse (Contents weights_file_502)
              (net0\<lparr>m_value_head_not_stm := True\<rparr>) = Inr ((2, 0), net') \<and>
           \<not> m_value_head_not_stm net')"
proof -
  note t2 = load_network_file_accepts_502_only[of "Contents weights_file_2" example_parse net0]
  note t502 = load_network_file_accepts_502_only[of "Contents weights_file_502" example_parse
      "net0\<lparr>m_value_head_not_stm := True\<rparr>"]
  from t2 have a: "load_network_file example_parse (Contents weights_file_2) net0 = Inr ((0, 0), net0)"
    using getlines_weights_file_2 stream_read_int_2 by simp
  from t502 have "load_network_file example_parse (Contents weights_file_502)
      (net0\<lparr>m_value_head_not_stm := True\<rparr>)
    = load_v1_network example_parse tensor_lines (net0\<lparr>m_value_head_not_stm := True\<rparr>\<lparr>m_value_head_not_stm := False\<rparr>)"
    using getlines_weights_file_502 stream_read_int_502 by simp
  then obtain net' where l: "load_network_file example_parse (Contents weights_file_502)
      (net0\<lparr>m_value_head_not_stm := True\<rparr>) = Inr ((2, 0), net')"
    using load_v1_network_tensor_lines by auto
  with t502 have "\<not> m_value_head_not_stm net'" by simp
  with a l show ?thesis by blast
qed

text \<open>
  The claim as written has a second, legacy version that loads and sets the flag. The file
  \<open>weights_file_2\<close> differs from the loadable \<open>weights_file_502\<close> in its version line only,
  and it is refused with the network object, flag included, left as it was.
\<close>

theorem load_network_file_version_2_counterexample:
  "load_network_file example_parse (Contents weights_file_2) net0 = Inr ((0, 0), net0) \<and>
   \<not> m_value_head_not_stm net0"
  by (simp add: load_network_file_def getlines_weights_file_2 stream_read_int_2 net0_def)

section \<open>The evaluation entry point\<close>

subsection \<open>Facts about the examples\<close>

lemma state9_size: "get_boardsize (board state9) = 9"
  by (simp add: state9_def opening_state_def empty_board_def)

lemma cfg2_facts: "BOARD_SIZE cfg2 = 2"
  by (simp add: cfg2_def)

lemma cfg19_facts:
  "BOARD_SIZE cfg19 = 19" "\<not> cfg_noise cfg19" "cfg_random_cnt cfg19 = 0"
  by (simp_all add: cfg19_def)

lemma N2: "NUM_INTERSECTIONS cfg2 = 4" by (simp add: NUM_INTERSECTIONS_def cfg2_def)

lemma N19: "NUM_INTERSECTIONS cfg19 = 361" by (simp add: NUM_INTERSECTIONS_def cfg19_def)

lemma state2w_facts:
  "get_boardsize (board state2w) = 2" "get_to_move (board state2w) = WHITE"
  by (simp_all add: state2w_def opening_state_def empty_board_def)

lemma state19_facts:
  "get_boardsize (board state19) = 19" "get_hash (board state19) = 5"
  "get_movenum state19 = 1" "opening_moves state19 19 = 60"
  "get_symmetry_hash state19 s = 5 + 100 * of_nat (s mod 4)"
  by (simp_all add: state19_def opening_state_def corner_board_def)

lemma net19_cache:
  "NNCache_lookup (m_nncache (net19 h)) k = (if k = h then Some stored19 else None)"
  by (simp add: net19_def NNCache_lookup_def NNCache_insert_def)

lemma net19_cache_is: "m_nncache (net19 h) = NNCache_insert h stored19 Map.empty"
  by (simp add: net19_def)

lemma stored19_policy: "policy stored19 ! 2 = Fin 1" "policy stored19 ! 38 = Fin 0"
  by (simp_all add: stored19_def)

lemma upt4: "[0..<4] = [0, 1, 2, 3]" by code_simp

lemma upt8: "[0..<8] = [0, 1, 2, 3, 4, 5, 6, 7]" by code_simp

lemma upd4: "(replicate 4 z)[0 := a, Suc 0 := b, 2 := c, 3 := d] = [a, b, c, d]"
  by (simp add: numeral_eq_Suc)

lemma symmetry_nn_idx_0: "symmetry_nn_idx cfg 0 v = v"
  by (simp add: symmetry_nn_idx_def spec_symmetry_0 xy_vertex_vertex_xy)

lemma row0_cfg2: "symmetry_nn_idx_table cfg2 ! 0 = [0, 1, 2, 3]"
  by (simp add: symmetry_nn_idx_table_def NUM_SYMMETRIES_def N2 symmetry_nn_idx_0 upt4)

lemma tbl19_2_16: "symmetry_nn_idx_table cfg19 ! 2 ! 16 = 2"
  by (simp add: symmetry_nn_idx_table_nth N19 symmetry_nn_idx_def spec_symmetry_def
      vertex_xy_def xy_vertex_def mirror_x_def cfg19_facts bit_Suc_0_iff)

lemma tbl19_4_2: "symmetry_nn_idx_table cfg19 ! 4 ! 2 = 38"
  by (simp add: symmetry_nn_idx_table_nth N19 symmetry_nn_idx_def spec_symmetry_def
      vertex_xy_def xy_vertex_def transpose_xy_def cfg19_facts bit_Suc_0_iff)

lemma gather_features_Inr:
  "s < NUM_SYMMETRIES \<Longrightarrow> \<exists>inp. gather_features cfg tbl state s = Inr inp"
  by (simp add: gather_features_def Let_def)

lemma ens2: "get_output_ensemble cfg2 (symmetry_nn_idx_table cfg2)
        (net0\<lparr>m_value_head_not_stm := True\<rparr>) state2w DIRECT 0
      = Inr (\<lparr>policy = [Fin (1 / 10), Fin (2 / 10), Fin (3 / 10), Fin (1 / 4)],
               policy_pass = Fin (3 / 20), winrate = Fin (3 / 4)\<rparr>,
             net0\<lparr>m_value_head_not_stm := True\<rparr>)"
proof -
  obtain inp where g: "gather_features cfg2 (symmetry_nn_idx_table cfg2) state2w 0 = Inr inp"
    using gather_features_Inr[of 0 cfg2 "symmetry_nn_idx_table cfg2" state2w]
    by (auto simp: NUM_SYMMETRIES_def)
  show ?thesis
    by (simp add: get_output_ensemble_def get_output_internal_def g NUM_SYMMETRIES_def
        net0_def Netresult_init_def N2 row0_cfg2 upt4 upd4)
qed

lemma get_output_cfg2_example:
  "\<exists>r net'. get_output cfg2 (symmetry_nn_idx_table cfg2) (net0\<lparr>m_value_head_not_stm := True\<rparr>)
       state2w DIRECT 0 True = Inr (r, net')"
  by (simp add: get_output_def ens2 state2w_facts cfg2_facts Let_def)

lemma probe19_205:
  "probe_cache cfg19 (symmetry_nn_idx_table cfg19) (net19 205) state19
     = Some (stored19\<lparr>policy := map (\<lambda>idx. policy stored19 ! (symmetry_nn_idx_table cfg19 ! 2 ! idx))
                                    [0..<NUM_INTERSECTIONS cfg19]\<rparr>)"
  by (simp add: probe_cache_def net19_cache state19_facts cfg19_facts NUM_SYMMETRIES_def upt8
      IDENTITY_SYMMETRY_def)

subsection \<open>A board of another size\<close>

text \<open>
  Claim C10, as amended. For a state whose board size differs from \<open>BOARD_SIZE\<close>,
  \<open>get_output\<close> takes an ordinary return: it hands the freshly constructed result (zero
  policy, zero pass probability, zero win-rate) to the caller and leaves the network
  object, its cache included, as it was. No assertion fails and nothing is evaluated.
\<close>

theorem get_output_board_size_mismatch:
  "get_boardsize (board state) \<noteq> int (BOARD_SIZE cfg) \<Longrightarrow>
     get_output cfg tbl net state ensemble symmetry skip_cache = Inr (Netresult_init cfg, net)"
  by (simp add: get_output_def)

theorem get_output_board_size_mismatch_witness:
  "get_boardsize (board state9) \<noteq> int (BOARD_SIZE cfg19) \<and>
   get_output cfg19 (symmetry_nn_idx_table cfg19) net0 state9 AVERAGE 0 True
     = Inr (Netresult_init cfg19, net0)"
proof -
  have h: "get_boardsize (board state9) \<noteq> int (BOARD_SIZE cfg19)"
    by (simp add: state9_size cfg19_def)
  from get_output_board_size_mismatch[OF h] h show ?thesis by simp
qed

text \<open>
  The claim as written says that no default result is returned for a board of another
  size. For a board of side 9 the call returns the all-zero result.
\<close>

theorem get_output_board_size_mismatch_counterexample:
  "get_output cfg19 (symmetry_nn_idx_table cfg19) net0 state9 DIRECT 0 False
     = Inr (\<lparr>policy = replicate 361 (Fin 0), policy_pass = Fin 0, winrate = Fin 0\<rparr>, net0)"
  by (simp add: get_output_def state9_size cfg19_def Netresult_init_def NUM_INTERSECTIONS_def)

subsection \<open>What a call leaves in the cache\<close>

lemma get_output_ensemble_cache:
  assumes "get_output_ensemble cfg tbl net state ensemble symmetry = Inr (r, net1)"
  shows "m_nncache net1 = m_nncache net \<and> m_value_head_not_stm net1 = m_value_head_not_stm net"
  using assms unfolding get_output_ensemble_def randfix_def Let_def
  by (auto split: if_splits sum.splits)

text \<open>
  Claim C2, as amended. With a matching board size: when the result does not come from the
  cache (\<open>skip_cache\<close> is set, or the probe misses) the returned result is inserted under
  the position's own hash, so that a lookup of that hash then gives it; when the probe
  hits, by the exact hash or by a symmetric image, the probed result is returned and the
  network object, cache included, is left as it was. On an exact hit the cache holds the
  returned result under the position's own hash already.
\<close>

theorem get_output_cache_insertion:
  assumes "get_boardsize (board state) = int (BOARD_SIZE cfg)"
  shows "((skip_cache \<or> probe_cache cfg tbl net state = None) \<longrightarrow>
            (\<forall>r net'. get_output cfg tbl net state ensemble symmetry skip_cache = Inr (r, net') \<longrightarrow>
               m_nncache net' = NNCache_insert (get_hash (board state)) r (m_nncache net) \<and>
               NNCache_lookup (m_nncache net') (get_hash (board state)) = Some r)) \<and>
         (\<forall>r. \<not> skip_cache \<and> probe_cache cfg tbl net state = Some r \<longrightarrow>
               get_output cfg tbl net state ensemble symmetry skip_cache = Inr (r, net)) \<and>
         (\<forall>r. \<not> skip_cache \<and> NNCache_lookup (m_nncache net) (get_hash (board state)) = Some r \<longrightarrow>
               get_output cfg tbl net state ensemble symmetry skip_cache = Inr (r, net))"
proof (intro conjI allI impI)
  fix r net'
  assume miss: "skip_cache \<or> probe_cache cfg tbl net state = None"
    and out: "get_output cfg tbl net state ensemble symmetry skip_cache = Inr (r, net')"
  from miss have p: "(if \<not> skip_cache then probe_cache cfg tbl net state else None) = None"
    by auto
  from out obtain r0 net1 where
    e: "get_output_ensemble cfg tbl net state ensemble symmetry = Inr (r0, net1)"
    and r: "r = value_head_adjust net1 state r0"
    and n: "net' = net1\<lparr>m_nncache := NNCache_insert (get_hash (board state)) r (m_nncache net1)\<rparr>"
    using assms unfolding get_output_def p
    by (auto simp: Let_def split: sum.splits)
  from get_output_ensemble_cache[OF e] n
  show "m_nncache net' = NNCache_insert (get_hash (board state)) r (m_nncache net)"
    by simp
  then show "NNCache_lookup (m_nncache net') (get_hash (board state)) = Some r"
    by (simp add: NNCache_lookup_def NNCache_insert_def)
next
  fix r assume "\<not> skip_cache \<and> probe_cache cfg tbl net state = Some r"
  then show "get_output cfg tbl net state ensemble symmetry skip_cache = Inr (r, net)"
    using assms by (simp add: get_output_def)
next
  fix r assume "\<not> skip_cache \<and> NNCache_lookup (m_nncache net) (get_hash (board state)) = Some r"
  then show "get_output cfg tbl net state ensemble symmetry skip_cache = Inr (r, net)"
    using assms by (simp add: get_output_def probe_cache_def)
qed

theorem get_output_cache_insertion_witness:
  "(\<exists>r net'. get_output cfg2 (symmetry_nn_idx_table cfg2) (net0\<lparr>m_value_head_not_stm := True\<rparr>)
       state2w DIRECT 0 True = Inr (r, net') \<and>
       NNCache_lookup (m_nncache net') (get_hash (board state2w)) = Some r) \<and>
   get_output cfg19 (symmetry_nn_idx_table cfg19) (net19 5) state19 AVERAGE 0 False
     = Inr (stored19, net19 5) \<and>
   get_output cfg19 (symmetry_nn_idx_table cfg19) (net19 205) state19 AVERAGE 0 False
     = Inr (the (probe_cache cfg19 (symmetry_nn_idx_table cfg19) (net19 205) state19), net19 205)"
proof -
  have b2: "get_boardsize (board state2w) = int (BOARD_SIZE cfg2)"
    by (simp add: state2w_facts cfg2_facts)
  have b19: "get_boardsize (board state19) = int (BOARD_SIZE cfg19)"
    by (simp add: state19_facts cfg19_facts)
  note t2 = get_output_cache_insertion[OF b2, of True "symmetry_nn_idx_table cfg2"
      "net0\<lparr>m_value_head_not_stm := True\<rparr>" DIRECT 0]
  note t5 = get_output_cache_insertion[OF b19, of False "symmetry_nn_idx_table cfg19"
      "net19 5" AVERAGE 0]
  note t205 = get_output_cache_insertion[OF b19, of False "symmetry_nn_idx_table cfg19"
      "net19 205" AVERAGE 0]
  from get_output_cfg2_example obtain r net' where
    g: "get_output cfg2 (symmetry_nn_idx_table cfg2) (net0\<lparr>m_value_head_not_stm := True\<rparr>)
       state2w DIRECT 0 True = Inr (r, net')" by blast
  with t2 have a: "NNCache_lookup (m_nncache net') (get_hash (board state2w)) = Some r"
    by blast
  have "NNCache_lookup (m_nncache (net19 5)) (get_hash (board state19)) = Some stored19"
    by (simp add: net19_cache state19_facts)
  with t5 have c: "get_output cfg19 (symmetry_nn_idx_table cfg19) (net19 5) state19 AVERAGE 0 False
     = Inr (stored19, net19 5)" by simp
  have "probe_cache cfg19 (symmetry_nn_idx_table cfg19) (net19 205) state19
      = Some (the (probe_cache cfg19 (symmetry_nn_idx_table cfg19) (net19 205) state19))"
    by (simp add: probe19_205)
  with t205 have d: "get_output cfg19 (symmetry_nn_idx_table cfg19) (net19 205) state19 AVERAGE 0 False
     = Inr (the (probe_cache cfg19 (symmetry_nn_idx_table cfg19) (net19 205) state19), net19 205)"
    by blast
  from g a c d show ?thesis by blast
qed

text \<open>
  The claim as written has the result under the position's own hash after every call. On
  a hit through the symmetry 2 the call returns the probed result, and the cache still
  has nothing under the position's own hash.
\<close>

theorem get_output_symmetric_hit_counterexample:
  "probe_cache cfg19 (symmetry_nn_idx_table cfg19) (net19 205) state19 \<noteq> None \<and>
   get_output cfg19 (symmetry_nn_idx_table cfg19) (net19 205) state19 DIRECT 0 False
     = Inr (the (probe_cache cfg19 (symmetry_nn_idx_table cfg19) (net19 205) state19), net19 205) \<and>
   NNCache_lookup (m_nncache (net19 205)) (get_hash (board state19)) = None"
  by (simp add: get_output_def probe19_205 state19_facts net19_cache cfg19_facts)

subsection \<open>A value head that reports for Black\<close>

text \<open>
  Claim C7. For an evaluated position (matching board size, result not taken from the
  cache), with \<open>raw\<close> the result of the ensemble branch: when the flag
  \<open>m_value_head_not_stm\<close> is set, the returned win-rate is \<open>1 - winrate raw\<close> with White
  to move and \<open>winrate raw\<close> with Black to move; when the flag is clear it is
  \<open>winrate raw\<close>.
\<close>

theorem get_output_value_head:
  assumes "get_boardsize (board state) = int (BOARD_SIZE cfg)"
      and "skip_cache \<or> probe_cache cfg tbl net state = None"
      and "get_output_ensemble cfg tbl net state ensemble symmetry = Inr (raw, net1)"
  shows "\<exists>result net'.
           get_output cfg tbl net state ensemble symmetry skip_cache = Inr (result, net') \<and>
           (m_value_head_not_stm net \<and> get_to_move (board state) = WHITE
              \<longrightarrow> winrate result = fsub (Fin 1) (winrate raw)) \<and>
           (m_value_head_not_stm net \<and> get_to_move (board state) = BLACK
              \<longrightarrow> winrate result = winrate raw) \<and>
           (\<not> m_value_head_not_stm net \<longrightarrow> winrate result = winrate raw)"
proof -
  from assms(2) have p: "(if \<not> skip_cache then probe_cache cfg tbl net state else None) = None"
    by auto
  from get_output_ensemble_cache[OF assms(3)]
  have f: "m_value_head_not_stm net1 = m_value_head_not_stm net" by simp
  have "get_output cfg tbl net state ensemble symmetry skip_cache
          = Inr (value_head_adjust net1 state raw,
                 net1\<lparr>m_nncache := NNCache_insert (get_hash (board state))
                          (value_head_adjust net1 state raw) (m_nncache net1)\<rparr>)"
    using assms(1,3) unfolding get_output_def p by (simp add: Let_def)
  then show ?thesis
    by (simp add: value_head_adjust_def f)
qed

theorem get_output_value_head_witness:
  "\<exists>result net'.
     get_output cfg2 (symmetry_nn_idx_table cfg2) (net0\<lparr>m_value_head_not_stm := True\<rparr>)
       state2w DIRECT 0 True = Inr (result, net') \<and>
     winrate result = Fin (1 / 4)"
proof -
  have b: "get_boardsize (board state2w) = int (BOARD_SIZE cfg2)"
    by (simp add: state2w_facts cfg2_def)
  have s: "True \<or> probe_cache cfg2 (symmetry_nn_idx_table cfg2)
             (net0\<lparr>m_value_head_not_stm := True\<rparr>) state2w = None"
    by simp
  from get_output_value_head[OF b s ens2] show ?thesis
    by (auto simp: state2w_facts)
qed

section \<open>Probing the cache through a symmetry\<close>

lemma probe_symmetries_miss:
  "\<forall>x\<in>set xs. x \<noteq> IDENTITY_SYMMETRY \<longrightarrow> NNCache_lookup c (get_symmetry_hash state x) = None
     \<Longrightarrow> probe_symmetries cfg tbl c state xs = None"
  by (induction xs) auto

lemma probe_symmetries_append:
  "probe_symmetries cfg tbl c state (xs @ ys) =
     (case probe_symmetries cfg tbl c state xs of
        Some r \<Rightarrow> Some r
      | None \<Rightarrow> probe_symmetries cfg tbl c state ys)"
  by (induction xs) (auto split: option.splits)

lemma probe_symmetries_first_hit:
  assumes "s < NUM_SYMMETRIES" "s \<noteq> IDENTITY_SYMMETRY"
      and "NNCache_lookup c (get_symmetry_hash state s) = Some stored"
      and "\<And>s'. s' < s \<Longrightarrow> s' \<noteq> IDENTITY_SYMMETRY
             \<Longrightarrow> NNCache_lookup c (get_symmetry_hash state s') = None"
  shows "probe_symmetries cfg tbl c state [0..<NUM_SYMMETRIES] =
           Some (stored\<lparr>policy := map (\<lambda>idx. policy stored ! (tbl ! s ! idx))
                                      [0..<NUM_INTERSECTIONS cfg]\<rparr>)"
proof -
  have split: "[0..<NUM_SYMMETRIES] = [0..<s] @ s # [Suc s..<NUM_SYMMETRIES]"
  proof -
    from assms(1) obtain k where k: "NUM_SYMMETRIES = s + k" "0 < k"
      by (metis less_imp_add_positive)
    have "[0..<s + k] = [0..<s] @ [s..<s + k]"
      by (rule upt_add_eq_append) simp
    also have "[s..<s + k] = s # [Suc s..<s + k]"
      using k(2) by (simp add: upt_conv_Cons)
    finally show ?thesis by (simp add: k(1))
  qed
  have "probe_symmetries cfg tbl c state [0..<s] = None"
    using assms(4) by (intro probe_symmetries_miss) auto
  then show ?thesis
    using assms(2,3) by (simp add: split probe_symmetries_append)
qed

text \<open>
  Claim C3, as amended. Let a result be stored under the hash \<open>H\<close>, let symmetric probing
  be enabled, and let \<open>s\<close> be a symmetry other than the identity whose hash of the state
  is \<open>H\<close>. If the cache has no entry under the state's own hash nor under the hash of a
  symmetry between the identity and \<open>s\<close>, the probe returns the stored result with the
  policy read through row \<open>s\<close> of the table, \<open>corrected[idx] = stored[table[s][idx]]\<close>,
  and with the stored win-rate and pass probability.
\<close>

theorem probe_cache_symmetric_hit:
  assumes "\<not> cfg_noise cfg" "cfg_random_cnt cfg = 0"
      and "get_movenum state < opening_moves state (BOARD_SIZE cfg) div 2"
      and "s < NUM_SYMMETRIES" "s \<noteq> IDENTITY_SYMMETRY"
      and "m_nncache net = NNCache_insert H stored c0"
      and "get_symmetry_hash state s = H"
      and "NNCache_lookup (m_nncache net) (get_hash (board state)) = None"
      and "\<forall>t. t < s \<and> t \<noteq> IDENTITY_SYMMETRY
             \<longrightarrow> NNCache_lookup (m_nncache net) (get_symmetry_hash state t) = None"
  shows "\<exists>result. probe_cache cfg tbl net state = Some result \<and>
           length (policy result) = NUM_INTERSECTIONS cfg \<and>
           (\<forall>idx<NUM_INTERSECTIONS cfg. policy result ! idx = policy stored ! (tbl ! s ! idx)) \<and>
           winrate result = winrate stored \<and> policy_pass result = policy_pass stored"
proof -
  have l: "NNCache_lookup (m_nncache net) (get_symmetry_hash state s) = Some stored"
    using assms(6,7) by (simp add: NNCache_lookup_def NNCache_insert_def)
  have "probe_symmetries cfg tbl (m_nncache net) state [0..<NUM_SYMMETRIES] =
           Some (stored\<lparr>policy := map (\<lambda>idx. policy stored ! (tbl ! s ! idx))
                                      [0..<NUM_INTERSECTIONS cfg]\<rparr>)"
    using assms(4,5,9) l by (intro probe_symmetries_first_hit) auto
  then have "probe_cache cfg tbl net state =
           Some (stored\<lparr>policy := map (\<lambda>idx. policy stored ! (tbl ! s ! idx))
                                      [0..<NUM_INTERSECTIONS cfg]\<rparr>)"
    using assms(1,2,3,8) by (simp add: probe_cache_def)
  then show ?thesis by simp
qed

theorem probe_cache_symmetric_hit_witness:
  "\<exists>result. probe_cache cfg19 (symmetry_nn_idx_table cfg19) (net19 205) state19 = Some result \<and>
     policy result ! 16 = Fin 1 \<and> winrate result = Fin (1 / 2) \<and> policy_pass result = Fin 0"
proof -
  have h: "\<not> cfg_noise cfg19" "cfg_random_cnt cfg19 = 0"
    "get_movenum state19 < opening_moves state19 (BOARD_SIZE cfg19) div 2"
    "2 < NUM_SYMMETRIES" "2 \<noteq> IDENTITY_SYMMETRY"
    "m_nncache (net19 205) = NNCache_insert 205 stored19 Map.empty"
    "get_symmetry_hash state19 2 = 205"
    "NNCache_lookup (m_nncache (net19 205)) (get_hash (board state19)) = None"
    "\<forall>t. t < 2 \<and> t \<noteq> IDENTITY_SYMMETRY
       \<longrightarrow> NNCache_lookup (m_nncache (net19 205)) (get_symmetry_hash state19 t) = None"
  proof -
    show "\<not> cfg_noise cfg19" "cfg_random_cnt cfg19 = 0"
      by (simp_all add: cfg19_facts)
    show "get_movenum state19 < opening_moves state19 (BOARD_SIZE cfg19) div 2"
      by (simp add: cfg19_facts state19_facts)
    show "2 < NUM_SYMMETRIES" "2 \<noteq> IDENTITY_SYMMETRY"
      by (simp_all add: NUM_SYMMETRIES_def IDENTITY_SYMMETRY_def)
    show "m_nncache (net19 205) = NNCache_insert 205 stored19 Map.empty"
      by (rule net19_cache_is)
    show "get_symmetry_hash state19 2 = 205"
      by (simp add: state19_facts)
    show "NNCache_lookup (m_nncache (net19 205)) (get_hash (board state19)) = None"
      by (simp add: net19_cache state19_facts)
    show "\<forall>t. t < 2 \<and> t \<noteq> IDENTITY_SYMMETRY
       \<longrightarrow> NNCache_lookup (m_nncache (net19 205)) (get_symmetry_hash state19 t) = None"
    proof (intro allI impI)
      fix t :: nat assume "t < 2 \<and> t \<noteq> IDENTITY_SYMMETRY"
      then have "t = 1" by (simp add: IDENTITY_SYMMETRY_def)
      then show "NNCache_lookup (m_nncache (net19 205)) (get_symmetry_hash state19 t) = None"
        by (simp add: net19_cache state19_facts)
    qed
  qed
  from probe_cache_symmetric_hit[OF h, of "symmetry_nn_idx_table cfg19"]
  obtain result where
    r: "probe_cache cfg19 (symmetry_nn_idx_table cfg19) (net19 205) state19 = Some result"
      "\<forall>idx<NUM_INTERSECTIONS cfg19.
         policy result ! idx = policy stored19 ! (symmetry_nn_idx_table cfg19 ! 2 ! idx)"
      "winrate result = winrate stored19" "policy_pass result = policy_pass stored19"
    by blast
  from r(2) have "policy result ! 16 = policy stored19 ! 2"
    by (simp add: N19 tbl19_2_16)
  with r(1,3,4) show ?thesis
    by (simp add: stored19_policy) (simp add: stored19_def)
qed

text \<open>
  The claim as written needs no more than a symmetry whose hash is \<open>H\<close>. For the position
  with a stone in the corner the transposition (symmetry 4) has the hash of the position
  itself; with a result stored under it, the probe finds the exact entry first and returns
  the stored policy as it is, which differs at vertex 2 from the policy read through row 4.
\<close>

theorem probe_cache_symmetric_hit_counterexample:
  "m_nncache (net19 5) = NNCache_insert 5 stored19 Map.empty \<and>
   get_symmetry_hash state19 4 = 5 \<and>
   \<not> cfg_noise cfg19 \<and> cfg_random_cnt cfg19 = 0 \<and>
   get_movenum state19 < opening_moves state19 (BOARD_SIZE cfg19) div 2 \<and>
   probe_cache cfg19 (symmetry_nn_idx_table cfg19) (net19 5) state19 = Some stored19 \<and>
   policy stored19 ! 2 \<noteq> policy stored19 ! (symmetry_nn_idx_table cfg19 ! 4 ! 2)"
proof -
  have "probe_cache cfg19 (symmetry_nn_idx_table cfg19) (net19 5) state19 = Some stored19"
    by (simp add: probe_cache_def net19_cache state19_facts)
  then show ?thesis
    using net19_cache_is[of 5]
    by (simp add: cfg19_facts state19_facts tbl19_4_2 stored19_policy)
qed

section \<open>The self-check\<close>

subsection \<open>The metric and the outcome of one comparison\<close>

lemma policy_mismatch_iff:
  "policy_mismatch d r idxs \<longleftrightarrow>
     (\<exists>idx\<in>set idxs. fgt (relative_difference (d ! idx) (r ! idx)) relative_error)"
  by (induction idxs) auto

lemma fgt_Fin: "fgt (Fin u) (Fin v) \<longleftrightarrow> v < u"
  by (simp add: fgt_def)

lemma std_max_Fin: "std_max (Fin u) (Fin v) = Fin (max u v)"
  by (simp add: std_max_def max_def)

lemma std_min_Fin: "std_min (Fin u) (Fin v) = Fin (min u v)"
  by (simp add: std_min_def min_def)

lemma floor_pos: "0 < max \<bar>x\<bar> (1 / 361 :: real)"
  by (simp add: less_max_iff_disj)

lemma relative_difference_Fin:
  "relative_difference (Fin x) (Fin y) =
     (if \<bar>x\<bar> > 1 / 361 \<and> \<bar>y\<bar> > 1 / 361 \<and> (x < 0) \<noteq> (y < 0) then Fin FLT_MAX
      else Fin (\<bar>max \<bar>x\<bar> (1 / 361) - max \<bar>y\<bar> (1 / 361)\<bar>
                / min (max \<bar>x\<bar> (1 / 361)) (max \<bar>y\<bar> (1 / 361))))"
proof -
  let ?fa = "max \<bar>x\<bar> (1 / 361)" and ?fb = "max \<bar>y\<bar> (1 / 361)"
  have "0 < min ?fa ?fb"
    using floor_pos[of x] floor_pos[of y] by simp
  then have pos: "min ?fa ?fb \<noteq> 0" by simp
  show ?thesis
  proof (cases "\<bar>x\<bar> > 1 / 361 \<and> \<bar>y\<bar> > 1 / 361")
    case True
    then have m: "?fa = \<bar>x\<bar>" "?fb = \<bar>y\<bar>"
      by (simp_all add: max_def)
    from pos have nz: "min \<bar>x\<bar> \<bar>y\<bar> \<noteq> 0" unfolding m .
    from True have t: "1 / 361 < \<bar>x\<bar>" "1 / 361 < \<bar>y\<bar>" by simp_all
    have "relative_difference (Fin x) (Fin y) =
            (if (x < 0) \<noteq> (y < 0) then Fin FLT_MAX
             else Fin (\<bar>\<bar>x\<bar> - \<bar>y\<bar>\<bar> / min \<bar>x\<bar> \<bar>y\<bar>))"
      unfolding relative_difference_def Let_def
      by (simp only: isnan.simps fabs.simps fgt_Fin t std_min_Fin fsub.simps fdiv.simps nz
          flt.simps simp_thms if_True if_False)
    then have e: "relative_difference (Fin x) (Fin y) =
            (if (x < 0) \<noteq> (y < 0) then Fin FLT_MAX
             else Fin (\<bar>?fa - ?fb\<bar> / min ?fa ?fb))"
      by (simp only: m)
    show ?thesis
    proof (cases "(x < 0) \<noteq> (y < 0)")
      case d: True
      with True have c: "\<bar>x\<bar> > 1 / 361 \<and> \<bar>y\<bar> > 1 / 361 \<and> (x < 0) \<noteq> (y < 0)" by blast
      show ?thesis unfolding if_P[OF c] using e unfolding if_P[OF d] .
    next
      case d: False
      then have c: "\<not> (\<bar>x\<bar> > 1 / 361 \<and> \<bar>y\<bar> > 1 / 361 \<and> (x < 0) \<noteq> (y < 0))" by blast
      show ?thesis unfolding if_not_P[OF c] using e unfolding if_not_P[OF d] .
    qed
  next
    case False
    have e: "relative_difference (Fin x) (Fin y) = Fin (\<bar>?fa - ?fb\<bar> / min ?fa ?fb)"
      unfolding relative_difference_def Let_def
      using False pos
      by (simp only: isnan.simps fabs.simps fgt_Fin std_min_Fin std_max_Fin fsub.simps
          fdiv.simps flt.simps simp_thms if_True if_False)
    from False have c: "\<not> (\<bar>x\<bar> > 1 / 361 \<and> \<bar>y\<bar> > 1 / 361 \<and> (x < 0) \<noteq> (y < 0))" by blast
    show ?thesis unfolding if_not_P[OF c] by (rule e)
  qed
qed

text \<open>
  Claim C6, as amended. \<open>relative_difference a b\<close> is the largest float when \<open>a\<close> or \<open>b\<close>
  is a NaN, and when both magnitudes exceed the floor 1/361 and the signs disagree. In
  every other case, a sign disagreement with a magnitude at or below the floor included,
  it is \<open>|fa - fb| / min fa fb\<close>, where \<open>fa\<close> and \<open>fb\<close> are the magnitudes raised to the
  floor. A comparison fails exactly when the metric exceeds 20% for some policy entry,
  for the pass probability or for the win-rate.
\<close>

theorem relative_difference_metric:
  "(isnan a \<or> isnan b \<longrightarrow> relative_difference a b = Fin FLT_MAX) \<and>
   (\<bar>x\<bar> > 1 / 361 \<and> \<bar>y\<bar> > 1 / 361 \<and> (x < 0) \<noteq> (y < 0)
      \<longrightarrow> relative_difference (Fin x) (Fin y) = Fin FLT_MAX) \<and>
   (\<not> (\<bar>x\<bar> > 1 / 361 \<and> \<bar>y\<bar> > 1 / 361 \<and> (x < 0) \<noteq> (y < 0))
      \<longrightarrow> relative_difference (Fin x) (Fin y) =
            Fin (\<bar>max \<bar>x\<bar> (1 / 361) - max \<bar>y\<bar> (1 / 361)\<bar>
                   / min (max \<bar>x\<bar> (1 / 361)) (max \<bar>y\<bar> (1 / 361)))) \<and>
   (selfcheck_fail data ref \<longleftrightarrow>
      (\<exists>idx<length (policy data).
          fgt (relative_difference (policy data ! idx) (policy ref ! idx)) (Fin (2 / 10))) \<or>
      fgt (relative_difference (policy_pass data) (policy_pass ref)) (Fin (2 / 10)) \<or>
      fgt (relative_difference (winrate data) (winrate ref)) (Fin (2 / 10)))"
proof (intro conjI impI)
  assume "isnan a \<or> isnan b"
  then show "relative_difference a b = Fin FLT_MAX"
    by (simp add: relative_difference_def)
next
  assume c: "\<bar>x\<bar> > 1 / 361 \<and> \<bar>y\<bar> > 1 / 361 \<and> (x < 0) \<noteq> (y < 0)"
  show "relative_difference (Fin x) (Fin y) = Fin FLT_MAX"
    using relative_difference_Fin[of x y] unfolding if_P[OF c] .
next
  assume c: "\<not> (\<bar>x\<bar> > 1 / 361 \<and> \<bar>y\<bar> > 1 / 361 \<and> (x < 0) \<noteq> (y < 0))"
  show "relative_difference (Fin x) (Fin y) = Fin (\<bar>max \<bar>x\<bar> (1 / 361) - max \<bar>y\<bar> (1 / 361)\<bar>
                   / min (max \<bar>x\<bar> (1 / 361)) (max \<bar>y\<bar> (1 / 361)))"
    using relative_difference_Fin[of x y] unfolding if_not_P[OF c] .
next
  show "selfcheck_fail data ref \<longleftrightarrow>
      (\<exists>idx<length (policy data).
          fgt (relative_difference (policy data ! idx) (policy ref ! idx)) (Fin (2 / 10))) \<or>
      fgt (relative_difference (policy_pass data) (policy_pass ref)) (Fin (2 / 10)) \<or>
      fgt (relative_difference (winrate data) (winrate ref)) (Fin (2 / 10))"
    unfolding selfcheck_fail_def Let_def policy_mismatch_iff relative_error_def
    by auto
qed

theorem relative_difference_metric_witness:
  "relative_difference NaN (Fin 1) = Fin FLT_MAX \<and>
   relative_difference (Fin (1 / 2)) (Fin (- 1 / 2)) = Fin FLT_MAX \<and>
   relative_difference (Fin (1 / 2)) (Fin (1 / 4)) = Fin 1 \<and>
   selfcheck_fail \<lparr>policy = [Fin (1 / 2)], policy_pass = Fin 0, winrate = Fin (1 / 2)\<rparr>
                  \<lparr>policy = [Fin (1 / 4)], policy_pass = Fin 0, winrate = Fin (1 / 2)\<rparr>"
proof -
  let ?d = "\<lparr>policy = [Fin (1 / 2)], policy_pass = Fin 0, winrate = Fin (1 / 2)\<rparr>"
  let ?r = "\<lparr>policy = [Fin (1 / 4)], policy_pass = Fin 0, winrate = Fin (1 / 2)\<rparr>"
  note t1 = relative_difference_metric[of NaN "Fin 1" "1 / 2" "- 1 / 2" ?d ?r]
  note t2 = relative_difference_metric[of NaN "Fin 1" "1 / 2" "1 / 4" ?d ?r]
  from t1 have a: "relative_difference NaN (Fin 1) = Fin FLT_MAX" by simp
  have "\<bar>1 / 2 :: real\<bar> > 1 / 361 \<and> \<bar>- 1 / 2 :: real\<bar> > 1 / 361
          \<and> ((1 / 2 :: real) < 0) \<noteq> ((- 1 / 2 :: real) < 0)"
    by simp
  with t1 have b: "relative_difference (Fin (1 / 2)) (Fin (- 1 / 2)) = Fin FLT_MAX"
    by blast
  have "\<not> (\<bar>1 / 2 :: real\<bar> > 1 / 361 \<and> \<bar>1 / 4 :: real\<bar> > 1 / 361
          \<and> ((1 / 2 :: real) < 0) \<noteq> ((1 / 4 :: real) < 0))"
    by simp
  with t2 have "relative_difference (Fin (1 / 2)) (Fin (1 / 4)) =
      Fin (\<bar>max \<bar>1 / 2\<bar> (1 / 361) - max \<bar>1 / 4\<bar> (1 / 361)\<bar>
                   / min (max \<bar>1 / 2\<bar> (1 / 361)) (max \<bar>1 / 4\<bar> (1 / 361)))"
    by blast
  then have c: "relative_difference (Fin (1 / 2)) (Fin (1 / 4)) = Fin 1"
    by simp
  have "fgt (relative_difference (policy ?d ! 0) (policy ?r ! 0)) (Fin (2 / 10))"
    by (simp add: c fgt_Fin)
  then have "\<exists>idx<length (policy ?d).
          fgt (relative_difference (policy ?d ! idx) (policy ?r ! idx)) (Fin (2 / 10))"
    by (intro exI[of _ 0]) simp
  with t2 have "selfcheck_fail ?d ?r" by blast
  with a b c show ?thesis by blast
qed

text \<open>
  The claim as written gives the largest value to every sign disagreement. The values
  \<open>-1/1000\<close> and \<open>1/1000\<close> disagree in sign, both are raised to the floor, and the metric
  is 0.
\<close>

theorem relative_difference_sign_counterexample:
  "(- 1 / 1000 < (0::real)) \<noteq> (1 / 1000 < (0::real)) \<and>
   relative_difference (Fin (- 1 / 1000)) (Fin (1 / 1000)) = Fin 0 \<and>
   Fin 0 \<noteq> Fin FLT_MAX"
  by (simp add: relative_difference_Fin FLT_MAX_def)

subsection \<open>The window of recorded outcomes\<close>

lemma pop_front_loop_drop: "pop_front_loop fs = drop (length fs - 9) fs"
proof (induction fs rule: pop_front_loop.induct)
  case (1 fails)
  show ?case
  proof (cases "length fails \<ge> last_failure_window")
    case True
    then have l: "10 \<le> length fails" by (simp add: last_failure_window_def)
    have "pop_front_loop fails = pop_front_loop (tl fails)"
      using True by (subst pop_front_loop.simps) simp
    also have "\<dots> = drop (length (tl fails) - 9) (tl fails)"
      using 1 True by simp
    also have "length (tl fails) - 9 = length fails - 10"
      using l by simp
    also have "drop (length fails - 10) (tl fails) = drop (Suc (length fails - 10)) fails"
      by (simp add: drop_Suc)
    also have "Suc (length fails - 10) = length fails - 9"
      using l by simp
    finally show ?thesis .
  next
    case False
    then have "length fails \<le> 9" by (simp add: last_failure_window_def)
    then show ?thesis using False by (subst pop_front_loop.simps) simp
  qed
qed

lemma count_take_le: "count_list (take n xs) y \<le> count_list xs y"
proof -
  have "count_list xs y = count_list (take n xs) y + count_list (drop n xs) y"
    by (metis append_take_drop_id count_list_append)
  then show ?thesis by simp
qed

lemma count_drop_le: "count_list (drop n xs) y \<le> count_list xs y"
proof -
  have "count_list xs y = count_list (take n xs) y + count_list (drop n xs) y"
    by (metis append_take_drop_id count_list_append)
  then show ?thesis by simp
qed

lemma window_append_ge:
  "count_list (take 10 (drop k xs)) True \<le> count_list (take 10 (drop k (xs @ ys))) True"
  by (simp add: count_list_append)

lemma bad_append:
  "\<exists>k. 3 \<le> count_list (take 10 (drop k xs)) True
     \<Longrightarrow> \<exists>k. 3 \<le> count_list (take 10 (drop k (xs @ ys))) True"
  using window_append_ge le_trans by blast

lemma last_window:
  "take 10 (drop (length zs - 10) zs) = drop (length zs - 10) zs"
  by simp

lemma bad_snoc_iff:
  "(\<exists>k. 3 \<le> count_list (take 10 (drop k (pre @ [b]))) True) \<longleftrightarrow>
     (\<exists>k. 3 \<le> count_list (take 10 (drop k pre)) True) \<or>
     3 \<le> count_list (drop (length (pre @ [b]) - 10) (pre @ [b])) True"
proof (intro iffI)
  assume "\<exists>k. 3 \<le> count_list (take 10 (drop k (pre @ [b]))) True"
  then obtain k where k: "3 \<le> count_list (take 10 (drop k (pre @ [b]))) True" by blast
  show "(\<exists>k. 3 \<le> count_list (take 10 (drop k pre)) True) \<or>
     3 \<le> count_list (drop (length (pre @ [b]) - 10) (pre @ [b])) True"
  proof (cases "k + 10 \<le> length pre")
    case True
    then have "take 10 (drop k (pre @ [b])) = take 10 (drop k pre)" by simp
    with k show ?thesis by auto
  next
    case False
    let ?zs = "pre @ [b]"
    let ?m = "length ?zs - 10"
    from False have "?m \<le> k" by simp
    then have "drop k ?zs = drop (k - ?m) (drop ?m ?zs)" by simp
    then have "count_list (drop k ?zs) True \<le> count_list (drop ?m ?zs) True"
      by (metis count_drop_le)
    moreover have "count_list (take 10 (drop k ?zs)) True \<le> count_list (drop k ?zs) True"
      by (rule count_take_le)
    ultimately show ?thesis using k by linarith
  qed
next
  assume "(\<exists>k. 3 \<le> count_list (take 10 (drop k pre)) True) \<or>
     3 \<le> count_list (drop (length (pre @ [b]) - 10) (pre @ [b])) True"
  then show "\<exists>k. 3 \<le> count_list (take 10 (drop k (pre @ [b]))) True"
  proof
    assume "\<exists>k. 3 \<le> count_list (take 10 (drop k pre)) True"
    then show ?thesis by (rule bad_append)
  next
    assume "3 \<le> count_list (drop (length (pre @ [b]) - 10) (pre @ [b])) True"
    then have "3 \<le> count_list (take 10 (drop (length (pre @ [b]) - 10) (pre @ [b]))) True"
      by (simp only: last_window)
    then show ?thesis by blast
  qed
qed

lemma pop_front_loop_window:
  "pop_front_loop (drop (length zs - 10) zs) = drop (length zs - 9) zs"
proof -
  have "length (drop (length zs - 10) zs) - 9 + (length zs - 10) = length zs - 9"
    by (cases "10 \<le> length zs") simp_all
  then show ?thesis
    by (simp only: pop_front_loop_drop drop_drop)
qed

lemma record_selfcheck_step:
  assumes ok: "\<not> (\<exists>k. 3 \<le> count_list (take 10 (drop k pre)) True)"
  shows "record_selfcheck b (drop (length pre - 9) pre) =
           (if \<exists>k. 3 \<le> count_list (take 10 (drop k (pre @ [b]))) True
            then Inl SelfcheckMismatch
            else Inr (drop (length (pre @ [b]) - 9) (pre @ [b])))"
proof -
  let ?zs = "pre @ [b]"
  have w: "drop (length pre - 9) pre @ [b] = drop (length ?zs - 10) ?zs"
    by simp
  have p: "pop_front_loop (drop (length ?zs - 10) ?zs) = drop (length ?zs - 9) ?zs"
    by (rule pop_front_loop_window)
  have iff: "(\<exists>k. 3 \<le> count_list (take 10 (drop k ?zs)) True)
          \<longleftrightarrow> 3 \<le> count_list (drop (length ?zs - 10) ?zs) True"
    using ok by (simp only: bad_snoc_iff) simp
  have nb: "3 \<le> count_list (drop (length ?zs - 10) ?zs) True \<Longrightarrow> b"
  proof (rule ccontr)
    assume c: "3 \<le> count_list (drop (length ?zs - 10) ?zs) True" and "\<not> b"
    then have "count_list (drop (length ?zs - 10) ?zs) True
                 = count_list (drop (length pre - 9) pre) True"
      using w[symmetric] by simp
    also have "drop (length pre - 9) pre = drop (length pre - 9 - (length pre - 10)) (drop (length pre - 10) pre)"
    proof -
      have "length pre - 9 - (length pre - 10) + (length pre - 10) = length pre - 9"
        by (cases "10 \<le> length pre") simp_all
      then show ?thesis by (simp only: drop_drop)
    qed
    also have "count_list \<dots> True \<le> count_list (drop (length pre - 10) pre) True"
      by (rule count_drop_le)
    also have "drop (length pre - 10) pre = take 10 (drop (length pre - 10) pre)"
      by simp
    finally have "3 \<le> count_list (take 10 (drop (length pre - 10) pre)) True"
      using c by linarith
    with ok show False by blast
  qed
  show ?thesis
  proof (cases "3 \<le> count_list (drop (length ?zs - 10) ?zs) True")
    case True
    with nb have b by blast
    with True show ?thesis
      unfolding record_selfcheck_def Let_def w p max_failures_def iff by simp
  next
    case False
    then show ?thesis
      unfolding record_selfcheck_def Let_def w p max_failures_def iff by simp
  qed
qed

lemma selfcheck_run_invariant:
  assumes "\<not> (\<exists>k. 3 \<le> count_list (take 10 (drop k pre)) True)"
  shows "selfcheck_run (drop (length pre - 9) pre) cs =
           (if \<exists>k. 3 \<le> count_list (take 10
                        (drop k (pre @ map (\<lambda>c. selfcheck_fail (fst c) (snd c)) cs))) True
            then Inl SelfcheckMismatch
            else Inr (drop (length (pre @ map (\<lambda>c. selfcheck_fail (fst c) (snd c)) cs) - 9)
                        (pre @ map (\<lambda>c. selfcheck_fail (fst c) (snd c)) cs)))"
  using assms
proof (induction cs arbitrary: pre)
  case Nil
  then show ?case by simp
next
  case (Cons c cs)
  let ?b = "selfcheck_fail (fst c) (snd c)"
  let ?rest = "map (\<lambda>c. selfcheck_fail (fst c) (snd c)) cs"
  have e: "pre @ map (\<lambda>c. selfcheck_fail (fst c) (snd c)) (c # cs) = (pre @ [?b]) @ ?rest"
    by simp
  note step = record_selfcheck_step[OF Cons.prems, of ?b]
  show ?case
  proof (cases "\<exists>k. 3 \<le> count_list (take 10 (drop k (pre @ [?b]))) True")
    case True
    then have "\<exists>k. 3 \<le> count_list (take 10 (drop k ((pre @ [?b]) @ ?rest))) True"
      by (rule bad_append)
    then show ?thesis
      using True step unfolding e by (simp add: compare_net_outputs_def)
  next
    case False
    from Cons.IH[OF False] False step show ?thesis
      unfolding e by (simp add: compare_net_outputs_def)
  qed
qed

lemma selfcheck_fail_bad_pair: "selfcheck_fail (fst bad_pair) (snd bad_pair)"
  by (simp add: selfcheck_fail_def bad_pair_def relative_difference_Fin fgt_Fin relative_error_def)

lemma selfcheck_fail_good_pair: "\<not> selfcheck_fail (fst good_pair) (snd good_pair)"
  by (simp add: selfcheck_fail_def good_pair_def relative_difference_Fin fgt_Fin relative_error_def)

text \<open>
  Claim C5. Starting from an empty failure list, a sequence of self-check comparisons ends
  in the exception \<open>SelfcheckMismatch\<close> exactly when some 10 consecutive outcomes of it
  hold 3 or more failures; when every 10 consecutive outcomes hold at most 2, every
  comparison returns. The statement holds for every sequence, hence for every prefix of
  one: the exception comes with the comparison that completes the first such window.
\<close>

theorem selfcheck_window:
  "(selfcheck_run [] cs = Inl SelfcheckMismatch \<longleftrightarrow>
      (\<exists>k. 3 \<le> count_list (take 10 (drop k (map (\<lambda>c. selfcheck_fail (fst c) (snd c)) cs))) True)) \<and>
   ((\<forall>k. count_list (take 10 (drop k (map (\<lambda>c. selfcheck_fail (fst c) (snd c)) cs))) True \<le> 2)
      \<longrightarrow> (\<exists>fails. selfcheck_run [] cs = Inr fails))"
proof -
  have "\<not> (\<exists>k. 3 \<le> count_list (take 10 (drop k ([]::bool list))) True)" by simp
  from selfcheck_run_invariant[OF this, of cs]
  have r: "selfcheck_run [] cs =
           (if \<exists>k. 3 \<le> count_list (take 10
                        (drop k (map (\<lambda>c. selfcheck_fail (fst c) (snd c)) cs))) True
            then Inl SelfcheckMismatch
            else Inr (drop (length (map (\<lambda>c. selfcheck_fail (fst c) (snd c)) cs) - 9)
                        (map (\<lambda>c. selfcheck_fail (fst c) (snd c)) cs)))"
    by simp
  have a: "selfcheck_run [] cs = Inl SelfcheckMismatch \<longleftrightarrow>
      (\<exists>k. 3 \<le> count_list (take 10 (drop k (map (\<lambda>c. selfcheck_fail (fst c) (snd c)) cs))) True)"
    unfolding r by simp
  have b: "\<exists>fails. selfcheck_run [] cs = Inr fails"
    if h: "\<forall>k. count_list (take 10 (drop k (map (\<lambda>c. selfcheck_fail (fst c) (snd c)) cs))) True \<le> 2"
  proof -
    have "\<not> (\<exists>k. 3 \<le> count_list (take 10 (drop k (map (\<lambda>c. selfcheck_fail (fst c) (snd c)) cs))) True)"
    proof
      assume "\<exists>k. 3 \<le> count_list (take 10 (drop k (map (\<lambda>c. selfcheck_fail (fst c) (snd c)) cs))) True"
      then obtain k where "3 \<le> count_list (take 10 (drop k (map (\<lambda>c. selfcheck_fail (fst c) (snd c)) cs))) True"
        by blast
      moreover from h have "count_list (take 10 (drop k (map (\<lambda>c. selfcheck_fail (fst c) (snd c)) cs))) True \<le> 2"
        by blast
      ultimately show False by linarith
    qed
    then show ?thesis unfolding r by simp
  qed
  from a b show ?thesis by blast
qed

theorem selfcheck_window_witness:
  "selfcheck_run [] [bad_pair, good_pair, bad_pair, good_pair, good_pair, good_pair, good_pair,
                     good_pair, good_pair, bad_pair] = Inl SelfcheckMismatch \<and>
   (\<exists>fails. selfcheck_run [] [bad_pair, bad_pair, good_pair, good_pair, good_pair, good_pair,
                     good_pair, good_pair, good_pair, good_pair, good_pair, bad_pair] = Inr fails)"
proof -
  let ?c1 = "[bad_pair, good_pair, bad_pair, good_pair, good_pair, good_pair, good_pair,
                     good_pair, good_pair, bad_pair]"
  let ?c2 = "[bad_pair, bad_pair, good_pair, good_pair, good_pair, good_pair,
                     good_pair, good_pair, good_pair, good_pair, good_pair, bad_pair]"
  let ?o2 = "[True, True, False, False, False, False, False, False, False, False, False, True]"
  have "3 \<le> count_list (take 10 (drop 0 (map (\<lambda>c. selfcheck_fail (fst c) (snd c)) ?c1))) True"
    by (simp add: selfcheck_fail_bad_pair selfcheck_fail_good_pair)
  then have "\<exists>k. 3 \<le> count_list (take 10 (drop k (map (\<lambda>c. selfcheck_fail (fst c) (snd c)) ?c1))) True"
    by blast
  with selfcheck_window[of ?c1] have a: "selfcheck_run [] ?c1 = Inl SelfcheckMismatch"
    by blast
  have o2: "map (\<lambda>c. selfcheck_fail (fst c) (snd c)) ?c2 = ?o2"
    by (simp add: selfcheck_fail_bad_pair selfcheck_fail_good_pair)
  have "count_list (take 10 (drop k ?o2)) True \<le> 2" for k
  proof -
    consider "k = 0" | "k = 1" | "2 \<le> k" by linarith
    then show ?thesis
    proof cases
      case 1 then show ?thesis by simp
    next
      case 2 then show ?thesis by simp
    next
      case 3
      then have "k - 2 + 2 = k" by simp
      then have "drop k ?o2 = drop (k - 2) (drop 2 ?o2)" by (simp only: drop_drop)
      then have "count_list (drop k ?o2) True \<le> count_list (drop 2 ?o2) True"
        by (metis count_drop_le)
      moreover have "count_list (take 10 (drop k ?o2)) True \<le> count_list (drop k ?o2) True"
        by (rule count_take_le)
      ultimately show ?thesis by simp
    qed
  qed
  then have "\<forall>k. count_list (take 10 (drop k (map (\<lambda>c. selfcheck_fail (fst c) (snd c)) ?c2))) True \<le> 2"
    unfolding o2 by blast
  with selfcheck_window[of ?c2] have "\<exists>fails. selfcheck_run [] ?c2 = Inr fails"
    by blast
  with a show ?thesis by blast
qed

section \<open>Averaging over the symmetries\<close>

lemma length_fold_update:
  "length (fold (\<lambda>idx p. p[h idx p := g idx p]) xs p) = length p"
  by (induction xs arbitrary: p) simp_all

lemma fold_pointwise:
  assumes "m \<le> length p"
  shows "i < length p \<Longrightarrow>
         fold (\<lambda>idx p. p[idx := g idx (p ! idx)]) [0..<m] p ! i
           = (if i < m then g i (p ! i) else p ! i)"
  using assms
proof (induction m arbitrary: i)
  case 0
  then show ?case by simp
next
  case (Suc m)
  let ?q = "fold (\<lambda>idx p. p[idx := g idx (p ! idx)]) [0..<m] p"
  have l: "length ?q = length p"
    by (rule length_fold_update[where h = "\<lambda>idx p. idx" and g = "\<lambda>idx p. g idx (p ! idx)"])
  have q: "?q ! j = (if j < m then g j (p ! j) else p ! j)" if "j < length p" for j
    using Suc.IH[OF that] Suc.prems by simp
  have "fold (\<lambda>idx p. p[idx := g idx (p ! idx)]) [0..<Suc m] p = ?q[m := g m (?q ! m)]"
    by simp
  then show ?case
    using Suc.prems l q[of i] q[of m] by (auto simp: nth_list_update)
qed

lemma fold_unpermute:
  assumes "inj_on h {..<n}" "\<forall>i<n. h i < length p" "m \<le> n" "j < m"
  shows "fold (\<lambda>idx p. p[h idx := out ! idx]) [0..<m] p ! (h j) = out ! j"
  using assms(3,4)
proof (induction m)
  case 0
  then show ?case by simp
next
  case (Suc m)
  let ?q = "fold (\<lambda>idx p. p[h idx := out ! idx]) [0..<m] p"
  have l: "length ?q = length p"
    by (rule length_fold_update[where h = "\<lambda>idx p. h idx" and g = "\<lambda>idx p. out ! idx"])
  have e: "fold (\<lambda>idx p. p[h idx := out ! idx]) [0..<Suc m] p = ?q[h m := out ! m]"
    by simp
  show ?case
  proof (cases "j = m")
    case True
    have "h m < length ?q" using assms(2) Suc.prems l by simp
    then show ?thesis unfolding e True by simp
  next
    case False
    with Suc.prems have jm: "j < m" by simp
    have "h j \<noteq> h m"
      using inj_onD[OF assms(1), of j m] Suc.prems jm by auto
    then show ?thesis
      unfolding e using Suc.IH jm Suc.prems by simp
  qed
qed

lemma get_output_internal_eval:
  assumes "s < NUM_SYMMETRIES"
  shows "\<exists>inp. gather_features cfg tbl state s = Inr inp \<and>
           get_output_internal cfg tbl net state s False =
             Inr \<lparr>policy = fold (\<lambda>idx p. p[tbl ! s ! idx := fst (m_forward net inp) ! idx])
                               [0..<NUM_INTERSECTIONS cfg]
                               (replicate (NUM_INTERSECTIONS cfg) (Fin 0)),
                  policy_pass = fst (m_forward net inp) ! NUM_INTERSECTIONS cfg,
                  winrate = snd (m_forward net inp)\<rparr>"
proof -
  from assms obtain inp where g: "gather_features cfg tbl state s = Inr inp"
    by (auto simp: gather_features_def Let_def)
  show ?thesis
    using assms by (simp add: g get_output_internal_def Let_def Netresult_init_def)
qed

lemma get_output_internal_unpermuted:
  assumes "build_symmetry_table cfg = Inr tbl" "s < NUM_SYMMETRIES"
  shows "\<exists>inp r. gather_features cfg tbl state s = Inr inp \<and>
           get_output_internal cfg tbl net state s False = Inr r \<and>
           length (policy r) = NUM_INTERSECTIONS cfg \<and>
           (\<forall>idx<NUM_INTERSECTIONS cfg.
              policy r ! (tbl ! s ! idx) = fst (m_forward net inp) ! idx) \<and>
           policy_pass r = fst (m_forward net inp) ! NUM_INTERSECTIONS cfg \<and>
           winrate r = snd (m_forward net inp)"
proof -
  let ?N = "NUM_INTERSECTIONS cfg"
  from get_output_internal_eval[OF assms(2), of cfg tbl state net]
  obtain inp where g: "gather_features cfg tbl state s = Inr inp"
    and e: "get_output_internal cfg tbl net state s False =
             Inr \<lparr>policy = fold (\<lambda>idx p. p[tbl ! s ! idx := fst (m_forward net inp) ! idx])
                               [0..<?N] (replicate ?N (Fin 0)),
                  policy_pass = fst (m_forward net inp) ! ?N,
                  winrate = snd (m_forward net inp)\<rparr>"
    by blast
  have s8: "s < 8" using assms(2) by (simp add: NUM_SYMMETRIES_def)
  have row: "tbl ! s ! v = symmetry_nn_idx cfg s v" if "v < ?N" for v
    using build_symmetry_table_nth[OF assms(1) s8 that] .
  have inj: "inj_on (\<lambda>idx. tbl ! s ! idx) {..<?N}"
    using symmetry_nn_idx_inj_on[of cfg s] row by (auto simp: inj_on_def)
  have rng: "\<forall>i<?N. tbl ! s ! i < length (replicate ?N (Fin 0 :: float))"
    using row symmetry_nn_idx_range by simp
  have u: "fold (\<lambda>idx p. p[tbl ! s ! idx := fst (m_forward net inp) ! idx])
              [0..<?N] (replicate ?N (Fin 0)) ! (tbl ! s ! idx) = fst (m_forward net inp) ! idx"
    if "idx < ?N" for idx
    using fold_unpermute[OF inj rng le_refl that] .
  have len: "length (fold (\<lambda>idx p. p[tbl ! s ! idx := fst (m_forward net inp) ! idx])
              [0..<?N] (replicate ?N (Fin 0))) = ?N"
    using length_fold_update[where h = "\<lambda>idx p. tbl ! s ! idx"
        and g = "\<lambda>idx p. fst (m_forward net inp) ! idx"
        and p = "replicate ?N (Fin 0)" and xs = "[0..<?N]"]
    by simp
  show ?thesis
    using g e u len by auto
qed

lemma average_loop_eval:
  assumes "\<forall>s\<in>set syms. get_output_internal cfg tbl net state s False = Inr (f s)"
      and "length (policy result) = NUM_INTERSECTIONS cfg"
  shows "\<exists>res. average_loop cfg tbl net state syms result = Inr res \<and>
     winrate res = fold (\<lambda>s acc. fadd acc (fdiv (winrate (f s)) (Fin 8))) syms (winrate result) \<and>
     policy_pass res
       = fold (\<lambda>s acc. fadd acc (fdiv (policy_pass (f s)) (Fin 8))) syms (policy_pass result) \<and>
     length (policy res) = NUM_INTERSECTIONS cfg \<and>
     (\<forall>idx<NUM_INTERSECTIONS cfg.
        policy res ! idx
          = fold (\<lambda>s acc. fadd acc (fdiv (policy (f s) ! idx) (Fin 8))) syms (policy result ! idx))"
  using assms
proof (induction syms arbitrary: result)
  case Nil
  then show ?case by simp
next
  case (Cons sy syms)
  let ?N = "NUM_INTERSECTIONS cfg"
  let ?tmp = "f sy"
  let ?pol = "fold (\<lambda>idx p. p[idx := fadd (p ! idx) (fdiv (policy ?tmp ! idx) (Fin (real NUM_SYMMETRIES)))])
                [0..<?N] (policy result)"
  let ?result1 = "result\<lparr>winrate := fadd (winrate result) (fdiv (winrate ?tmp) (Fin (real NUM_SYMMETRIES))),
                         policy_pass := fadd (policy_pass result)
                                          (fdiv (policy_pass ?tmp) (Fin (real NUM_SYMMETRIES))),
                         policy := ?pol\<rparr>"
  have g: "get_output_internal cfg tbl net state sy False = Inr ?tmp"
    using Cons.prems(1) by simp
  have step: "average_loop cfg tbl net state (sy # syms) result
                = average_loop cfg tbl net state syms ?result1"
    by (simp add: g)
  have len: "length ?pol = ?N"
    using length_fold_update[where h = "\<lambda>idx p. idx"
        and g = "\<lambda>idx p. fadd (p ! idx) (fdiv (policy ?tmp ! idx) (Fin (real NUM_SYMMETRIES)))"
        and xs = "[0..<?N]" and p = "policy result"] Cons.prems(2)
    by simp
  have pt: "?pol ! idx = fadd (policy result ! idx) (fdiv (policy ?tmp ! idx) (Fin 8))"
    if "idx < ?N" for idx
    using fold_pointwise[where g = "\<lambda>idx v. fadd v (fdiv (policy ?tmp ! idx) (Fin (real NUM_SYMMETRIES)))"
        and p = "policy result" and m = ?N and i = idx] Cons.prems(2) that
    by (simp add: NUM_SYMMETRIES_def)
  have "\<forall>s\<in>set syms. get_output_internal cfg tbl net state s False = Inr (f s)"
    using Cons.prems(1) by simp
  moreover have "length (policy ?result1) = ?N" using len by simp
  ultimately obtain res where
    r: "average_loop cfg tbl net state syms ?result1 = Inr res"
      "winrate res = fold (\<lambda>s acc. fadd acc (fdiv (winrate (f s)) (Fin 8))) syms (winrate ?result1)"
      "policy_pass res
         = fold (\<lambda>s acc. fadd acc (fdiv (policy_pass (f s)) (Fin 8))) syms (policy_pass ?result1)"
      "length (policy res) = ?N"
      "\<forall>idx<?N. policy res ! idx
          = fold (\<lambda>s acc. fadd acc (fdiv (policy (f s) ! idx) (Fin 8))) syms (policy ?result1 ! idx)"
    using Cons.IH[of ?result1] by blast
  have "fold (\<lambda>s acc. fadd acc (fdiv (policy (f s) ! idx) (Fin 8))) (sy # syms) (policy result ! idx)
          = policy res ! idx" if "idx < ?N" for idx
    using r(5) pt[OF that] that by simp
  then show ?case
    unfolding step using r(1-4) by (auto simp: NUM_SYMMETRIES_def)
qed

lemma winrate_const_forward:
  assumes "s < NUM_SYMMETRIES" "\<And>inp. snd (m_forward net inp) = v"
  shows "winrate (projr (get_output_internal cfg tbl net state s False)) = v"
  using get_output_internal_eval[OF assms(1), of cfg tbl state net] assms(2) by auto

lemma pass_const_forward:
  assumes "s < NUM_SYMMETRIES" "\<And>inp. fst (m_forward net inp) ! NUM_INTERSECTIONS cfg = v"
  shows "policy_pass (projr (get_output_internal cfg tbl net state s False)) = v"
  using get_output_internal_eval[OF assms(1), of cfg tbl state net] assms(2) by auto

lemma accumulate_fold:
  "fold (\<lambda>s acc. fadd acc (fdiv (g s) (Fin 8))) xs (Fin 0) = accumulate (map g xs)"
  by (simp add: accumulate_def fold_map comp_def NUM_SYMMETRIES_def)

lemma accumulate_8:
  "accumulate [a, b, c, d, e, f, g, h] =
     fadd (fadd (fadd (fadd (fadd (fadd (fadd (fadd (Fin 0)
       (fdiv a (Fin 8))) (fdiv b (Fin 8))) (fdiv c (Fin 8))) (fdiv d (Fin 8)))
       (fdiv e (Fin 8))) (fdiv f (Fin 8))) (fdiv g (Fin 8))) (fdiv h (Fin 8))"
  by (simp add: accumulate_def NUM_SYMMETRIES_def)

lemma replicate_8: "replicate 8 x = [x, x, x, x, x, x, x, x]"
  by (simp add: numeral_eq_Suc)

lemma winrates_state2s:
  "map (\<lambda>s. map_sum id (\<lambda>inp. snd (weighted_forward inp))
              (gather_features cfg2 (symmetry_nn_idx_table cfg2) state2s s)) [0..<8]
   = map Inr [Fin (5 / 16), Fin (15 / 16), Fin (1 / 8), Fin (3 / 4),
              Fin (9 / 16), Fin (7 / 8), Fin (3 / 16), Fin (1 / 2)]"
  by code_simp

lemma winrate_state2s:
  assumes "s < NUM_SYMMETRIES"
  shows "winrate (projr (get_output_internal cfg2 (symmetry_nn_idx_table cfg2) net2 state2s s False))
           = [Fin (5 / 16), Fin (15 / 16), Fin (1 / 8), Fin (3 / 4),
              Fin (9 / 16), Fin (7 / 8), Fin (3 / 16), Fin (1 / 2)] ! s"
proof -
  let ?ws = "[Fin (5 / 16), Fin (15 / 16), Fin (1 / 8), Fin (3 / 4),
              Fin (9 / 16), Fin (7 / 8), Fin (3 / 16), Fin (1 / 2)]"
  let ?F = "\<lambda>s. map_sum id (\<lambda>inp. snd (weighted_forward inp))
              (gather_features cfg2 (symmetry_nn_idx_table cfg2) state2s s)"
  from assms have s8: "s < 8" by (simp add: NUM_SYMMETRIES_def)
  then have "map ?F [0..<8] ! s = ?F s" by simp
  moreover from s8 have "map Inr ?ws ! s = (Inr (?ws ! s) :: error + float)"
    by (intro nth_map) simp
  ultimately have F: "?F s = Inr (?ws ! s)"
    by (simp only: winrates_state2s)
  from get_output_internal_eval[OF assms, of cfg2 "symmetry_nn_idx_table cfg2" state2s net2]
  obtain inp where
    g: "gather_features cfg2 (symmetry_nn_idx_table cfg2) state2s s = Inr inp"
    and w: "winrate (projr (get_output_internal cfg2 (symmetry_nn_idx_table cfg2) net2 state2s s False))
              = snd (m_forward net2 inp)"
    by auto
  from F g have "snd (weighted_forward inp) = ?ws ! s" by simp
  with w show ?thesis by (simp add: net2_def)
qed

text \<open>
  Claim C8, as amended. Let the table be built and the board size match. When the result
  is not taken from the cache (\<open>skip_cache\<close> is set, or the probe misses), \<open>get_output\<close> in
  \<open>AVERAGE\<close> mode returns, and there are eight results \<open>rs\<close>, one single evaluation per
  symmetry in the order 0 to 7, each with its policy written back to the orientation of
  the board (\<open>policy (rs ! s) ! (tbl ! s ! idx)\<close> is output \<open>idx\<close> of the backend), such
  that the returned pass probability and every returned policy entry are the sums
  accumulated from zero, in that order, of the eight values each divided by 8, and the
  returned win-rate is the sum so accumulated of the win-rates, complemented when the
  value-head flag is set and White is to move. The accumulated sum is the unweighted
  arithmetic mean up to the rounding of its steps; the statement does not say more.
\<close>

theorem get_output_average:
  assumes "build_symmetry_table cfg = Inr tbl"
      and "get_boardsize (board state) = int (BOARD_SIZE cfg)"
      and "skip_cache \<or> probe_cache cfg tbl net state = None"
  shows "\<exists>rs res net'.
           length rs = NUM_SYMMETRIES \<and>
           (\<forall>s<NUM_SYMMETRIES.
              get_output_internal cfg tbl net state s False = Inr (rs ! s) \<and>
              (\<exists>inp. gather_features cfg tbl state s = Inr inp \<and>
                 (\<forall>idx<NUM_INTERSECTIONS cfg.
                    policy (rs ! s) ! (tbl ! s ! idx) = fst (m_forward net inp) ! idx))) \<and>
           get_output cfg tbl net state AVERAGE symmetry skip_cache = Inr (res, net') \<and>
           policy_pass res = accumulate (map policy_pass rs) \<and>
           (\<forall>idx<NUM_INTERSECTIONS cfg.
              policy res ! idx = accumulate (map (\<lambda>r. policy r ! idx) rs)) \<and>
           winrate res =
             (if m_value_head_not_stm net \<and> get_to_move (board state) = WHITE
              then fsub (Fin 1) (accumulate (map winrate rs))
              else accumulate (map winrate rs))"
proof -
  let ?N = "NUM_INTERSECTIONS cfg"
  let ?f = "\<lambda>s. projr (get_output_internal cfg tbl net state s False)"
  let ?rs = "map ?f [0..<NUM_SYMMETRIES]"
  have ev: "get_output_internal cfg tbl net state s False = Inr (?f s) \<and>
              (\<exists>inp. gather_features cfg tbl state s = Inr inp \<and>
                 (\<forall>idx<?N. policy (?f s) ! (tbl ! s ! idx) = fst (m_forward net inp) ! idx))"
    if "s < NUM_SYMMETRIES" for s
    using get_output_internal_unpermuted[OF assms(1) that, of state net] by auto
  have nth: "?rs ! s = ?f s" if "s < NUM_SYMMETRIES" for s
    using that by simp
  have all: "\<forall>s\<in>set [0..<NUM_SYMMETRIES]. get_output_internal cfg tbl net state s False = Inr (?f s)"
    using ev by simp
  have init: "length (policy (Netresult_init cfg)) = ?N"
    by (simp add: Netresult_init_def)
  from average_loop_eval[OF all init] obtain res0 where
    r: "average_loop cfg tbl net state [0..<NUM_SYMMETRIES] (Netresult_init cfg) = Inr res0"
      "winrate res0 = fold (\<lambda>s acc. fadd acc (fdiv (winrate (?f s)) (Fin 8))) [0..<NUM_SYMMETRIES]
                        (winrate (Netresult_init cfg))"
      "policy_pass res0 = fold (\<lambda>s acc. fadd acc (fdiv (policy_pass (?f s)) (Fin 8)))
                        [0..<NUM_SYMMETRIES] (policy_pass (Netresult_init cfg))"
      "\<forall>idx<?N. policy res0 ! idx
          = fold (\<lambda>s acc. fadd acc (fdiv (policy (?f s) ! idx) (Fin 8))) [0..<NUM_SYMMETRIES]
              (policy (Netresult_init cfg) ! idx)"
    by blast
  have w: "winrate res0 = accumulate (map winrate ?rs)"
    using r(2) accumulate_fold[of "\<lambda>s. winrate (?f s)" "[0..<NUM_SYMMETRIES]"]
    by (simp add: Netresult_init_def comp_def)
  have p: "policy_pass res0 = accumulate (map policy_pass ?rs)"
    using r(3) accumulate_fold[of "\<lambda>s. policy_pass (?f s)" "[0..<NUM_SYMMETRIES]"]
    by (simp add: Netresult_init_def comp_def)
  have q: "policy res0 ! idx = accumulate (map (\<lambda>r. policy r ! idx) ?rs)" if "idx < ?N" for idx
    using r(4) that accumulate_fold[of "\<lambda>s. policy (?f s) ! idx" "[0..<NUM_SYMMETRIES]"]
    by (simp add: Netresult_init_def comp_def)
  from assms(3) have pr: "(if \<not> skip_cache then probe_cache cfg tbl net state else None) = None"
    by auto
  have ens: "get_output_ensemble cfg tbl net state AVERAGE symmetry = Inr (res0, net)"
    by (simp add: get_output_ensemble_def r(1))
  let ?res = "value_head_adjust net state res0"
  let ?net' = "net\<lparr>m_nncache := NNCache_insert (get_hash (board state)) ?res (m_nncache net)\<rparr>"
  have out: "get_output cfg tbl net state AVERAGE symmetry skip_cache = Inr (?res, ?net')"
    using assms(2) unfolding get_output_def pr by (simp add: ens Let_def)
  have a1: "policy_pass ?res = accumulate (map policy_pass ?rs)"
    using p by (simp add: value_head_adjust_def)
  have a2: "\<forall>idx<?N. policy ?res ! idx = accumulate (map (\<lambda>r. policy r ! idx) ?rs)"
    using q by (simp add: value_head_adjust_def)
  have a3: "winrate ?res =
             (if m_value_head_not_stm net \<and> get_to_move (board state) = WHITE
              then fsub (Fin 1) (accumulate (map winrate ?rs))
              else accumulate (map winrate ?rs))"
    using w by (simp add: value_head_adjust_def)
  have a0: "\<forall>s<NUM_SYMMETRIES.
              get_output_internal cfg tbl net state s False = Inr (?rs ! s) \<and>
              (\<exists>inp. gather_features cfg tbl state s = Inr inp \<and>
                 (\<forall>idx<?N. policy (?rs ! s) ! (tbl ! s ! idx) = fst (m_forward net inp) ! idx))"
    using ev nth by simp
  have len: "length ?rs = NUM_SYMMETRIES" by simp
  from len a0 out a1 a2 a3 show ?thesis by blast
qed

text \<open>
  On the board with two stones the eight evaluations give eight different win-rates; the
  call returns the sum accumulated from their eighths, 17/32, and the pass probability
  1/2. All these values and all partial sums are multiples of 1/128.
\<close>

theorem get_output_average_witness:
  "\<exists>rs res net'.
     length rs = 8 \<and>
     (\<forall>s<8. get_output_internal cfg2 (symmetry_nn_idx_table cfg2) net2 state2s s False
               = Inr (rs ! s)) \<and>
     map winrate rs = [Fin (5 / 16), Fin (15 / 16), Fin (1 / 8), Fin (3 / 4),
                       Fin (9 / 16), Fin (7 / 8), Fin (3 / 16), Fin (1 / 2)] \<and>
     get_output cfg2 (symmetry_nn_idx_table cfg2) net2 state2s AVERAGE 0 True = Inr (res, net') \<and>
     winrate res = Fin (17 / 32) \<and> policy_pass res = Fin (1 / 2)"
proof -
  let ?tbl = "symmetry_nn_idx_table cfg2"
  let ?ws = "[Fin (5 / 16), Fin (15 / 16), Fin (1 / 8), Fin (3 / 4),
              Fin (9 / 16), Fin (7 / 8), Fin (3 / 16), Fin (1 / 2)]"
  have b: "get_boardsize (board state2s) = int (BOARD_SIZE cfg2)"
    by (simp add: state2s_def opening_state_def two_stone_board_def cfg2_facts)
  have tm: "get_to_move (board state2s) = BLACK"
    by (simp add: state2s_def opening_state_def two_stone_board_def)
  have s: "True \<or> probe_cache cfg2 ?tbl net2 state2s = None" by simp
  from get_output_average[OF build_symmetry_table_is b s, where symmetry = 0]
  obtain rs res net' where
    l: "length rs = NUM_SYMMETRIES"
    and e: "\<forall>s<NUM_SYMMETRIES. get_output_internal cfg2 ?tbl net2 state2s s False = Inr (rs ! s)"
    and o: "get_output cfg2 ?tbl net2 state2s AVERAGE 0 True = Inr (res, net')"
    and p: "policy_pass res = accumulate (map policy_pass rs)"
    and w: "winrate res =
             (if m_value_head_not_stm net2 \<and> get_to_move (board state2s) = WHITE
              then fsub (Fin 1) (accumulate (map winrate rs))
              else accumulate (map winrate rs))"
    by blast
  have l8: "length rs = 8" using l by (simp add: NUM_SYMMETRIES_def)
  have e8: "\<forall>s<8. get_output_internal cfg2 ?tbl net2 state2s s False = Inr (rs ! s)"
    using e by (simp add: NUM_SYMMETRIES_def)
  have mw: "map winrate rs = ?ws"
  proof (rule nth_equalityI)
    show "length (map winrate rs) = length ?ws" using l8 by simp
  next
    fix s assume "s < length (map winrate rs)"
    then have s: "s < NUM_SYMMETRIES" using l by simp
    with e have "rs ! s = projr (get_output_internal cfg2 ?tbl net2 state2s s False)" by simp
    with winrate_state2s[OF s] s l show "map winrate rs ! s = ?ws ! s" by simp
  qed
  have fp: "fst (m_forward net2 inp) ! NUM_INTERSECTIONS cfg2 = Fin (1 / 2)" for inp
    by (simp add: net2_def weighted_forward_def N2)
  have "\<forall>x\<in>set (map policy_pass rs). x = Fin (1 / 2)"
  proof
    fix x assume "x \<in> set (map policy_pass rs)"
    then obtain s where s: "s < NUM_SYMMETRIES" "x = policy_pass (rs ! s)"
      using l by (auto simp: in_set_conv_nth)
    with e pass_const_forward[OF s(1) fp, of ?tbl state2s] show "x = Fin (1 / 2)"
      by simp
  qed
  moreover have "length (map policy_pass rs) = 8" using l8 by simp
  ultimately have "map policy_pass rs = replicate 8 (Fin (1 / 2))"
    by (intro replicate_eqI) blast+
  then have mp: "accumulate (map policy_pass rs) = Fin (1 / 2)"
    by (simp only: replicate_8 accumulate_8) simp
  have aw: "accumulate (map winrate rs) = Fin (17 / 32)"
    unfolding mw by (simp only: accumulate_8) simp
  from w tm aw have "winrate res = Fin (17 / 32)" by simp
  with l8 e8 mw o p mp show ?thesis by auto
qed

text \<open>
  The claim as written has every call in \<open>AVERAGE\<close> mode return the mean. With
  \<open>stored19\<close> in the cache under the hash of the state, the call returns the stored
  result, win-rate 1/2, while each of the eight evaluations gives 3/4 and so does the sum
  accumulated from their eighths.
\<close>

theorem get_output_average_cache_hit_counterexample:
  "get_output cfg19 (symmetry_nn_idx_table cfg19) (net19 5) state19 AVERAGE 0 False
     = Inr (stored19, net19 5) \<and>
   winrate stored19 = Fin (1 / 2) \<and>
   per_symmetry_winrates19 = replicate 8 (Fin (3 / 4)) \<and>
   accumulate per_symmetry_winrates19 = Fin (3 / 4)"
proof -
  have a: "get_output cfg19 (symmetry_nn_idx_table cfg19) (net19 5) state19 AVERAGE 0 False
     = Inr (stored19, net19 5)"
    by (simp add: get_output_def probe_cache_def net19_cache state19_facts cfg19_facts)
  have fw: "snd (m_forward (net19 5) inp) = Fin (3 / 4)" for inp
    by (simp add: net19_def)
  have "\<forall>x\<in>set per_symmetry_winrates19. x = Fin (3 / 4)"
    unfolding per_symmetry_winrates19_def
    using winrate_const_forward[OF _ fw] by auto
  moreover have "length per_symmetry_winrates19 = 8"
    by (simp add: per_symmetry_winrates19_def NUM_SYMMETRIES_def)
  ultimately have r: "per_symmetry_winrates19 = replicate 8 (Fin (3 / 4))"
    by (intro replicate_eqI) blast+
  have "accumulate per_symmetry_winrates19 = Fin (3 / 4)"
    unfolding r by (simp only: replicate_8 accumulate_8) simp
  with a r show ?thesis by (simp add: stored19_def)
qed

section \<open>The layout of the input planes\<close>

lemma fold_keeps_length:
  "(\<And>x p. length (step x p) = length p) \<Longrightarrow> length (fold step xs p) = length p"
  by (induction xs arbitrary: p) simp_all

lemma fold_keeps_nth:
  "(\<And>x p. x \<in> set xs \<Longrightarrow> step x p ! k = p ! k) \<Longrightarrow> fold step xs p ! k = p ! k"
  by (induction xs arbitrary: p) simp_all

lemma std_fill_length: "length (std_fill a b v xs) = length xs"
  unfolding std_fill_def by (rule fold_keeps_length) simp

lemma std_fill_nth_other: "k < a \<Longrightarrow> std_fill a b v xs ! k = xs ! k"
  unfolding std_fill_def by (rule fold_keeps_nth) simp

lemma std_fill_nth_in:
  assumes "a \<le> k" "k < b" "k < length xs"
  shows "std_fill a b v xs ! k = v"
  using assms(2)
proof (induction b)
  case 0
  then show ?case by simp
next
  case (Suc b)
  have l: "length (std_fill a b v xs) = length xs" by (rule std_fill_length)
  show ?case
  proof (cases "a \<le> b")
    case True
    then have e: "std_fill a (Suc b) v xs = (std_fill a b v xs)[b := v]"
      by (simp add: std_fill_def)
    show ?thesis
    proof (cases "k = b")
      case True
      then show ?thesis unfolding e using assms(3) l by simp
    next
      case False
      with Suc.prems have "k < b" by simp
      with Suc.IH False show ?thesis unfolding e by simp
    qed
  next
    case False
    with assms(1) Suc.prems show ?thesis by simp
  qed
qed

lemma fill_input_plane_pair_length:
  "length (fill_input_plane_pair cfg tbl b black white symmetry inp) = length inp"
  unfolding fill_input_plane_pair_def by (rule fold_keeps_length) (simp add: Let_def)

lemma put_nth_other: "int k < i \<Longrightarrow> put xs i v ! k = xs ! k"
  by (simp add: put_def)

lemma fill_liberty_planes_keeps:
  assumes "k < planes_black" "k < planes_white" "1 \<le> plane_count"
      and "\<forall>x y. get_square b (get_vertex b x y) \<noteq> EMPTY \<longrightarrow> 1 \<le> get_liberties b x y"
  shows "fill_liberty_planes cfg tbl b planes_black planes_white plane_count symmetry inp ! k
           = inp ! k"
  unfolding fill_liberty_planes_def
proof (rule fold_keeps_nth)
  fix idx p
  let ?x = "int (tbl ! symmetry ! idx mod BOARD_SIZE cfg)"
  let ?y = "int (tbl ! symmetry ! idx div BOARD_SIZE cfg)"
  let ?libs = "if get_liberties b ?x ?y > plane_count then plane_count else get_liberties b ?x ?y"
  have pos: "0 \<le> (?libs - 1) * int (NUM_INTERSECTIONS cfg)"
    if "get_square b (get_vertex b ?x ?y) \<noteq> EMPTY"
  proof -
    from that assms(4) have "1 \<le> get_liberties b ?x ?y" by blast
    with assms(3) have "0 \<le> ?libs - 1" by simp
    then show ?thesis by (intro mult_nonneg_nonneg) simp_all
  qed
  have "int k < int planes_black + (?libs - 1) * int (NUM_INTERSECTIONS cfg) + int idx"
       "int k < int planes_white + (?libs - 1) * int (NUM_INTERSECTIONS cfg) + int idx"
    if "get_square b (get_vertex b ?x ?y) \<noteq> EMPTY"
    using pos[OF that] assms(1,2) by linarith+
  then show "(let sym_idx = tbl ! symmetry ! idx;
                 x = int (sym_idx mod BOARD_SIZE cfg);
                 y = int (sym_idx div BOARD_SIZE cfg);
                 vtx = get_vertex b x y;
                 color = get_square b vtx
             in if color \<noteq> EMPTY then
                  (let libs0 = get_liberties b x y;
                       libs = (if libs0 > plane_count then plane_count else libs0)
                   in if color = BLACK
                      then put p (int planes_black
                                    + (libs - 1) * int (NUM_INTERSECTIONS cfg) + int idx) (Fin 1)
                      else put p (int planes_white
                                    + (libs - 1) * int (NUM_INTERSECTIONS cfg) + int idx) (Fin 1))
                else p) ! k = p ! k"
    by (simp add: Let_def put_nth_other)
qed

lemma fill_ladder_planes_keeps:
  assumes "k < captures" "k < escapes"
  shows "fill_ladder_planes cfg tbl state captures escapes symmetry inp ! k = inp ! k"
  unfolding fill_ladder_planes_def
  using assms by (intro fold_keeps_nth) (simp add: Let_def)

lemma legal_plane_keeps:
  assumes "idx < NUM_INTERSECTIONS cfg"
      and "get_square_xy (board state) (int (tbl ! symmetry ! idx mod BOARD_SIZE cfg))
                (int (tbl ! symmetry ! idx div BOARD_SIZE cfg)) = EMPTY
           \<longrightarrow> is_move_legal state (get_to_move (board state))
                 (get_vertex (board state) (int (tbl ! symmetry ! idx mod BOARD_SIZE cfg))
                    (int (tbl ! symmetry ! idx div BOARD_SIZE cfg)))"
  shows "legal_plane cfg tbl state legal symmetry inp ! (legal + idx) = inp ! (legal + idx)"
  unfolding legal_plane_def Let_def
proof (rule fold_keeps_nth)
  fix i p
  show "(if get_square_xy (board state) (int (tbl ! symmetry ! i mod BOARD_SIZE cfg))
                (int (tbl ! symmetry ! i div BOARD_SIZE cfg)) = EMPTY
        then if \<not> is_move_legal state (get_to_move (board state))
                    (get_vertex (board state) (int (tbl ! symmetry ! i mod BOARD_SIZE cfg))
                       (int (tbl ! symmetry ! i div BOARD_SIZE cfg)))
             then p[legal + i := Fin 1] else p
        else p) ! (legal + idx) = p ! (legal + idx)"
    using assms(2) by (cases "i = idx") auto
qed

lemma initial_state19_facts:
  "get_to_move (board initial_state19) = BLACK"
  "get_square (board initial_state19) v = EMPTY"
  "is_move_legal initial_state19 c v"
  "get_komi initial_state19 = Fin (15 / 2)"
  by (simp_all add: initial_state19_def opening_state_def empty_board_def)

text \<open>
  Claim C4 asks for the komi planes and the plane of illegal moves in slots of their own,
  the latter zero wherever the player to move may play. In \<open>gather_features\<close> the iterator
  \<open>black_to_move_it\<close> is the iterator \<open>legal_it\<close>: both are plane \<open>2 * INPUT_MOVES\<close>. The
  plane is first filled with Black's komi scalar and then marked by \<open>legal_plane\<close>, and no
  later write reaches it (every stone has a liberty, so the liberty planes start one plane
  further on). Hence, at every point that is occupied, or empty and legal, the plane that
  \<open>legal_plane\<close> writes holds Black's komi scalar.
\<close>

theorem gather_features_komi_in_legal_plane:
  assumes "symmetry < NUM_SYMMETRIES"
      and "idx < NUM_INTERSECTIONS cfg"
      and "2 * INPUT_MOVES cfg + 1 \<le> INPUT_CHANNELS cfg"
      and "1 \<le> LIBERTY_PLANES cfg"
      and "\<forall>x y. get_square (board state) (get_vertex (board state) x y) \<noteq> EMPTY
                 \<longrightarrow> 1 \<le> get_liberties (board state) x y"
      and "get_square_xy (board state) (int (tbl ! symmetry ! idx mod BOARD_SIZE cfg))
                (int (tbl ! symmetry ! idx div BOARD_SIZE cfg)) = EMPTY
           \<longrightarrow> is_move_legal state (get_to_move (board state))
                 (get_vertex (board state) (int (tbl ! symmetry ! idx mod BOARD_SIZE cfg))
                    (int (tbl ! symmetry ! idx div BOARD_SIZE cfg)))"
  shows "\<exists>input_data. gather_features cfg tbl state symmetry = Inr input_data \<and>
           input_data ! (2 * INPUT_MOVES cfg * NUM_INTERSECTIONS cfg + idx) =
             (if get_to_move (board state) = BLACK then get_normalised_komi cfg state
              else fsub (Fin 1) (get_normalised_komi cfg state))"
proof -
  let ?N = "NUM_INTERSECTIONS cfg"
  let ?M = "INPUT_MOVES cfg"
  let ?LP = "LIBERTY_PLANES cfg"
  let ?bm = "get_to_move (board state) = BLACK"
  let ?L = "2 * ?M * ?N"
  let ?k = "?L + idx"
  let ?hist = "fold (\<lambda>h inp. fill_input_plane_pair cfg tbl (get_past_board state h)
                               ((if ?bm then 0 else ?M * ?N) + h * ?N)
                               ((if ?bm then ?M * ?N else 0) + h * ?N) symmetry inp)
                   [0..<min (get_movenum state + 1) ?M]
                   (replicate (INPUT_CHANNELS cfg * ?N) (Fin 0))"
  let ?pos = "get_normalised_komi cfg state"
  let ?bk = "if ?bm then ?pos else fsub (Fin 1) ?pos"
  let ?wk = "if ?bm then fsub (Fin 1) ?pos else ?pos"
  let ?d2 = "std_fill ?L (?L + ?N) ?bk ?hist"
  let ?d3 = "std_fill (?L + ?N) (?L + ?N + ?N) ?wk ?d2"
  let ?d4 = "legal_plane cfg tbl state ?L symmetry ?d3"
  let ?lo = "(2 * ?M + 1) * ?N"
  let ?lt = "(2 * ?M + 1 + ?LP) * ?N"
  let ?d5 = "fill_liberty_planes cfg tbl (board state)
               (if ?bm then ?lo else ?lt) (if ?bm then ?lt else ?lo) (int ?LP) symmetry ?d4"
  let ?C = "(2 * ?M + 1 + 2 * ?LP) * ?N"
  let ?E = "(2 * ?M + 1 + 2 * ?LP + 1) * ?N"
  let ?d6 = "fill_ladder_planes cfg tbl state ?C ?E symmetry ?d5"
  have e: "gather_features cfg tbl state symmetry = Inr ?d6"
    using assms(1) by (simp add: gather_features_def Let_def)
  have k1: "?k < ?lo" using assms(2) by (simp add: algebra_simps)
  have "?lo \<le> ?lt" "?lo \<le> ?C" "?lo \<le> ?E"
    by (intro mult_le_mono1; simp)+
  with k1 have k2: "?k < ?lt" "?k < ?C" "?k < ?E" by linarith+
  have "?lo \<le> INPUT_CHANNELS cfg * ?N"
    using assms(3) by (intro mult_le_mono1)
  with k1 have k3: "?k < INPUT_CHANNELS cfg * ?N" by linarith
  have lh: "length ?hist = INPUT_CHANNELS cfg * ?N"
    by (subst fold_keeps_length) (simp_all add: fill_input_plane_pair_length)
  have "?d6 ! ?k = ?d5 ! ?k"
    using k2 by (intro fill_ladder_planes_keeps)
  also have "\<dots> = ?d4 ! ?k"
    using k1 k2 assms(4,5) by (intro fill_liberty_planes_keeps) simp_all
  also have "\<dots> = ?d3 ! ?k"
    using assms(2,6) by (intro legal_plane_keeps)
  also have "\<dots> = ?d2 ! ?k"
    using assms(2) by (intro std_fill_nth_other) simp
  also have "\<dots> = ?bk"
    using assms(2) k3 lh by (intro std_fill_nth_in) simp_all
  finally show ?thesis
    using e by simp
qed

text \<open>
  On the empty board with Black to move and komi 7.5 every move is legal and Black's
  scalar is 1: the first entry of the plane of illegal moves is 1.
\<close>

theorem gather_features_komi_in_legal_plane_witness:
  "\<exists>input_data. gather_features cfg19 (symmetry_nn_idx_table cfg19) initial_state19 0
                   = Inr input_data \<and>
     input_data ! 5776 = Fin 1"
proof -
  have h: "0 < NUM_SYMMETRIES" "0 < NUM_INTERSECTIONS cfg19"
    "2 * INPUT_MOVES cfg19 + 1 \<le> INPUT_CHANNELS cfg19" "1 \<le> LIBERTY_PLANES cfg19"
    "\<forall>x y. get_square (board initial_state19) (get_vertex (board initial_state19) x y) \<noteq> EMPTY
                 \<longrightarrow> 1 \<le> get_liberties (board initial_state19) x y"
    "get_square_xy (board initial_state19)
         (int (symmetry_nn_idx_table cfg19 ! 0 ! 0 mod BOARD_SIZE cfg19))
         (int (symmetry_nn_idx_table cfg19 ! 0 ! 0 div BOARD_SIZE cfg19)) = EMPTY
       \<longrightarrow> is_move_legal initial_state19 (get_to_move (board initial_state19))
            (get_vertex (board initial_state19)
               (int (symmetry_nn_idx_table cfg19 ! 0 ! 0 mod BOARD_SIZE cfg19))
               (int (symmetry_nn_idx_table cfg19 ! 0 ! 0 div BOARD_SIZE cfg19)))"
    by (simp_all add: NUM_SYMMETRIES_def N19 initial_state19_facts) (simp_all add: cfg19_def)
  have k: "get_normalised_komi cfg19 initial_state19 = Fin 1"
    by (simp add: get_normalised_komi_def initial_state19_facts cfg19_def)
  have n: "2 * INPUT_MOVES cfg19 * NUM_INTERSECTIONS cfg19 + 0 = 5776"
    by (simp add: N19) (simp add: cfg19_def)
  from gather_features_komi_in_legal_plane[OF h] show ?thesis
    unfolding n by (simp add: k initial_state19_facts)
qed

end
